theory Spec2Isabelle
  imports Complex_Main "HOL-Library.Option_ord" "HOL-Library.AList"
begin

section \<open>Python values, dictionaries and exceptions\<close>

text \<open>
  The pipeline (\<^verbatim>\<open>transformer.py\<close>, \<^verbatim>\<open>quality_report.py\<close>) reads event documents
  from the event store and turns them into pandas tables. The values that occur in an
  event payload and in a table cell are modelled by one datatype:
  \<^item> \<open>PNone\<close> is Python's \<^verbatim>\<open>None\<close> in a payload and the missing value of a column
    (\<^verbatim>\<open>None\<close>, \<^verbatim>\<open>NaN\<close>, \<^verbatim>\<open>NaT\<close>) in a table;
  \<^item> \<open>PNum\<close> is a number. Floats are idealised as exact rationals, so the IEEE values
    \<^verbatim>\<open>inf\<close> and \<^verbatim>\<open>nan\<close> and binary rounding are not part of the model. JSON booleans
    are the numbers 1 and 0: they agree with them in truthiness, \<^verbatim>\<open>float()\<close>, equality
    and hashing, which are the operations used here;
  \<^item> \<open>PStr\<close> is a string (of ASCII characters);
  \<^item> \<open>PTime\<close> is a \<^verbatim>\<open>pd.Timestamp\<close> in UTC, as nanoseconds since the epoch;
  \<^item> \<open>PDate\<close> is a \<^verbatim>\<open>datetime.date\<close>, as days since the epoch.
  Nested arrays and objects inside a payload are not modelled.
\<close>

datatype pyval = PNone | PNum rat | PStr string | PTime int | PDate int

datatype error = TypeError | ValueError | AttributeError | KeyError

type_synonym dict = "string \<rightharpoonup> pyval"

text \<open>\<^verbatim>\<open>d.get(k)\<close> and \<^verbatim>\<open>d.get(k, default)\<close>.\<close>

definition get :: "dict \<Rightarrow> string \<Rightarrow> pyval" where
  "get d k = (case d k of None \<Rightarrow> PNone | Some v \<Rightarrow> v)"

definition get_default :: "dict \<Rightarrow> string \<Rightarrow> pyval \<Rightarrow> pyval" where
  "get_default d k dflt = (case d k of None \<Rightarrow> dflt | Some v \<Rightarrow> v)"

text \<open>Truthiness of a value, and \<^verbatim>\<open>a or b\<close>, which returns \<^verbatim>\<open>a\<close> when it is truthy and
  \<^verbatim>\<open>b\<close> otherwise (also when \<^verbatim>\<open>b\<close> is falsy).\<close>

fun truthy :: "pyval \<Rightarrow> bool" where
  "truthy PNone = False"
| "truthy (PNum r) = (r \<noteq> 0)"
| "truthy (PStr s) = (s \<noteq> [])"
| "truthy (PTime t) = True"
| "truthy (PDate d) = True"

definition py_or :: "pyval \<Rightarrow> pyval \<Rightarrow> pyval" where
  "py_or a b = (if truthy a then a else b)"

text \<open>
  Two library functions are parameters of the model: the parser behind \<^verbatim>\<open>float(s)\<close> on a
  string (\<open>None\<close> where Python raises \<^verbatim>\<open>ValueError\<close>), and
  \<^verbatim>\<open>pd.to_datetime(v, utc=True, errors="coerce")\<close> (\<open>None\<close> where the result is missing).
\<close>

record pyenv =
  float_of_str :: "string \<Rightarrow> rat option"
  to_datetime :: "pyval \<Rightarrow> int option"

text \<open>\<^verbatim>\<open>float(v)\<close>.\<close>

fun py_float :: "pyenv \<Rightarrow> pyval \<Rightarrow> error + rat" where
  "py_float env PNone = Inl TypeError"
| "py_float env (PNum r) = Inr r"
| "py_float env (PStr s) = (case float_of_str env s of None \<Rightarrow> Inl ValueError | Some r \<Rightarrow> Inr r)"
| "py_float env (PTime t) = Inl TypeError"
| "py_float env (PDate d) = Inl TypeError"

definition timestamp :: "pyenv \<Rightarrow> pyval \<Rightarrow> pyval" where
  "timestamp env v = (case to_datetime env v of None \<Rightarrow> PNone | Some t \<Rightarrow> PTime t)"

text \<open>\<^verbatim>\<open>str.lower()\<close> on ASCII strings.\<close>

definition lower_char :: "char \<Rightarrow> char" where
  "lower_char c =
     (let n = (of_char c :: nat) in if 65 \<le> n \<and> n \<le> 90 then char_of (n + 32) else c)"

definition lower :: "string \<Rightarrow> string" where
  "lower s = map lower_char s"

text \<open>\<^verbatim>\<open>v.lower()\<close> on an arbitrary value: only strings have the method.\<close>

fun py_lower :: "pyval \<Rightarrow> error + string" where
  "py_lower (PStr s) = Inr (lower s)"
| "py_lower v = Inl AttributeError"

section \<open>Tables\<close>

text \<open>
  A \<^verbatim>\<open>pd.DataFrame\<close> is its list of column names and its rows; a row is the dictionary
  it was built from, kept as an association list in column order. \<^verbatim>\<open>pd.DataFrame()\<close> has
  neither columns nor rows.
\<close>

type_synonym row = "(string \<times> pyval) list"

record frame =
  columns :: "string list"
  rows :: "row list"

definition empty_frame :: frame where
  "empty_frame = \<lparr>columns = [], rows = []\<rparr>"

definition cell :: "row \<Rightarrow> string \<Rightarrow> pyval" where
  "cell r c = (case map_of r c of None \<Rightarrow> PNone | Some v \<Rightarrow> v)"

text \<open>\<^verbatim>\<open>pd.DataFrame(rows)\<close> for a list of dictionaries that all have the keys \<open>cols\<close>.\<close>

definition DataFrame :: "string list \<Rightarrow> row list \<Rightarrow> frame" where
  "DataFrame cols rs = (if rs = [] then empty_frame else \<lparr>columns = cols, rows = rs\<rparr>)"

text \<open>\<^verbatim>\<open>df.empty\<close>: some axis has length 0.\<close>

definition df_empty :: "frame \<Rightarrow> bool" where
  "df_empty df = (rows df = [] \<or> columns df = [])"

text \<open>\<^verbatim>\<open>df[c]\<close>: the values of a column, \<^verbatim>\<open>KeyError\<close> when the table has no such column.\<close>

definition column :: "frame \<Rightarrow> string \<Rightarrow> error + pyval list" where
  "column df c = (if c \<in> set (columns df) then Inr (map (\<lambda>r. cell r c) (rows df)) else Inl KeyError)"

text \<open>
  \<^verbatim>\<open>df.drop_duplicates(subset=[k])\<close> keeps the first row of every key value,
  \<^verbatim>\<open>keep="last"\<close> the last one; the rows that stay keep their order. Missing keys are
  equal to each other.
\<close>

fun drop_duplicates :: "string \<Rightarrow> row list \<Rightarrow> row list" where
  "drop_duplicates k [] = []"
| "drop_duplicates k (r # rs) = r # filter (\<lambda>x. cell x k \<noteq> cell r k) (drop_duplicates k rs)"

fun drop_duplicates_last :: "string \<Rightarrow> row list \<Rightarrow> row list" where
  "drop_duplicates_last k [] = []"
| "drop_duplicates_last k (r # rs) =
     (if cell r k \<in> (\<lambda>x. cell x k) ` set rs then drop_duplicates_last k rs
      else r # drop_duplicates_last k rs)"

text \<open>
  \<^verbatim>\<open>df.sort_values(c, na_position="first")\<close> on a timestamp column: the rows with a missing
  timestamp come first, in their order, then the dated rows in ascending order. Rows with
  equal timestamps keep their order (the sort is modelled as stable).
\<close>

fun time_key :: "pyval \<Rightarrow> int option" where
  "time_key (PTime t) = Some t"
| "time_key v = None"

definition sort_values :: "string \<Rightarrow> row list \<Rightarrow> row list" where
  "sort_values c rs = sort_key (\<lambda>r. time_key (cell r c)) rs"

text \<open>Sequencing of computations that may raise.\<close>

definition bind :: "error + 'a \<Rightarrow> ('a \<Rightarrow> error + 'b) \<Rightarrow> error + 'b" where
  "bind m f = (case m of Inl e \<Rightarrow> Inl e | Inr x \<Rightarrow> f x)"

fun map_rows :: "('a \<Rightarrow> error + 'b) \<Rightarrow> 'a list \<Rightarrow> error + 'b list" where
  "map_rows f [] = Inr []"
| "map_rows f (x # xs) = bind (f x) (\<lambda>y. bind (map_rows f xs) (\<lambda>ys. Inr (y # ys)))"

section \<open>Normalizers\<close>

record event =
  payload :: dict
  event_id :: pyval
  vendor :: pyval
  event_type :: pyval

subsection \<open>Orders\<close>

definition order_columns :: "string list" where
  "order_columns = [''order_id'', ''customer_id'', ''order_amount'', ''order_status'',
     ''created_at'', ''event_id'', ''vendor'', ''event_type'']"

definition order_row :: "pyenv \<Rightarrow> event \<Rightarrow> error + row" where
  "order_row env ev =
     (let p = payload ev in
      bind (py_float env (get_default p ''totalAmount'' (PNum 0))) (\<lambda>amount.
      Inr [(''order_id'', get p ''order_id''),
           (''customer_id'', get p ''customerId''),
           (''order_amount'', PNum amount),
           (''order_status'', get p ''state''),
           (''created_at'', timestamp env (get p ''created_at'')),
           (''event_id'', event_id ev),
           (''vendor'', vendor ev),
           (''event_type'', event_type ev)]))"

definition normalize_orders :: "pyenv \<Rightarrow> event list \<Rightarrow> error + frame" where
  "normalize_orders env events =
     (if events = [] then Inr empty_frame
      else bind (map_rows (order_row env) events) (\<lambda>rs.
        let df = DataFrame order_columns rs
        in Inr (df\<lparr>rows := drop_duplicates_last ''order_id'' (sort_values ''created_at'' (rows df))\<rparr>)))"

subsection \<open>Payments\<close>

definition payment_columns :: "string list" where
  "payment_columns = [''payment_id'', ''order_id'', ''payment_amount'', ''payment_status'',
     ''payment_method'', ''payment_date'', ''event_id'', ''vendor'']"

text \<open>The status vocabulary (lines 64 to 71 of \<^verbatim>\<open>transformer.py\<close>).\<close>

definition resolved_status :: "dict \<Rightarrow> pyval" where
  "resolved_status p = py_or (py_or (get p ''payment_status'') (get p ''status'')) (get p ''state'')"

definition payment_status :: "dict \<Rightarrow> error + pyval" where
  "payment_status p =
     (let status = resolved_status p in
      if truthy status then
        bind (py_lower status) (\<lambda>s.
          if s \<in> set [''failed'', ''fail'', ''error''] then Inr (PStr ''failed'')
          else if s \<in> set [''success'', ''successful'', ''completed'', ''paid''] then Inr (PStr ''success'')
          else Inr (PStr s))
      else Inr status)"

definition payment_amount_raw :: "dict \<Rightarrow> pyval" where
  "payment_amount_raw p =
     py_or (py_or (py_or (get p ''amountPaid'') (get p ''amount'')) (get p ''payment_amount''))
       (get p ''totalAmount'')"

text \<open>\<^verbatim>\<open>float(amount) if amount else 0.0\<close>.\<close>

definition amount_or_zero :: "pyenv \<Rightarrow> pyval \<Rightarrow> error + rat" where
  "amount_or_zero env amount = (if truthy amount then py_float env amount else Inr 0)"

definition payment_row :: "pyenv \<Rightarrow> event \<Rightarrow> error + row" where
  "payment_row env ev =
     (let p = payload ev;
          payment_id = py_or (py_or (py_or (get p ''transaction_id'') (get p ''payment_id''))
                         (get p ''id'')) (get p ''paymentId'');
          order_id = py_or (get p ''order_id'') (get p ''orderId'');
          amount = payment_amount_raw p
      in bind (payment_status p) (\<lambda>status.
         let method = py_or (py_or (get p ''channel'') (get p ''method'')) (get p ''payment_method'');
             date = py_or (py_or (get p ''paid_at'') (get p ''payment_date'')) (get p ''created_at'')
         in bind (amount_or_zero env amount) (\<lambda>a.
            Inr [(''payment_id'', payment_id),
                 (''order_id'', order_id),
                 (''payment_amount'', PNum a),
                 (''payment_status'', status),
                 (''payment_method'', method),
                 (''payment_date'', timestamp env date),
                 (''event_id'', event_id ev),
                 (''vendor'', vendor ev)])))"

definition normalize_payments :: "pyenv \<Rightarrow> event list \<Rightarrow> error + frame" where
  "normalize_payments env events =
     (if events = [] then Inr empty_frame
      else bind (map_rows (payment_row env) events) (\<lambda>rs.
        let df = DataFrame payment_columns rs
        in Inr (df\<lparr>rows := drop_duplicates ''payment_id'' (rows df)\<rparr>)))"

subsection \<open>Refunds\<close>

definition refund_columns :: "string list" where
  "refund_columns = [''refund_id'', ''order_id'', ''payment_id'', ''refund_amount'',
     ''refund_reason'', ''refund_type'', ''refund_date'', ''event_id'', ''vendor'']"

definition refund_amount_raw :: "dict \<Rightarrow> pyval" where
  "refund_amount_raw p =
     py_or (py_or (py_or (get p ''amountRefunded'') (get p ''amount'')) (get p ''refund_amount''))
       (get p ''totalAmount'')"

definition refund_row :: "pyenv \<Rightarrow> event \<Rightarrow> error + row" where
  "refund_row env ev =
     (let p = payload ev;
          refund_id = py_or (py_or (get p ''refund_id'') (get p ''id'')) (get p ''transaction_id'');
          order_id = py_or (get p ''order_id'') (get p ''orderId'');
          payment_id = py_or (py_or (get p ''payment_id'') (get p ''paymentId''))
                         (get p ''transaction_id'');
          amount = refund_amount_raw p;
          reason = py_or (get p ''reason'') (get p ''refund_reason'');
          refund_type = py_or (get p ''type'') (get p ''refund_type'');
          date = py_or (py_or (get p ''refunded_at'') (get p ''refund_date'')) (get p ''created_at'')
      in bind (amount_or_zero env amount) (\<lambda>a.
         Inr [(''refund_id'', refund_id),
              (''order_id'', order_id),
              (''payment_id'', payment_id),
              (''refund_amount'', PNum a),
              (''refund_reason'', reason),
              (''refund_type'', refund_type),
              (''refund_date'', timestamp env date),
              (''event_id'', event_id ev),
              (''vendor'', vendor ev)]))"

definition normalize_refunds :: "pyenv \<Rightarrow> event list \<Rightarrow> error + frame" where
  "normalize_refunds env events =
     (if events = [] then Inr empty_frame
      else bind (map_rows (refund_row env) events) (\<lambda>rs.
        let df = DataFrame refund_columns rs
        in Inr (df\<lparr>rows := drop_duplicates ''refund_id'' (rows df)\<rparr>)))"

section \<open>Daily aggregator\<close>

text \<open>
  \<^verbatim>\<open>round(x, n)\<close> rounds to \<open>n\<close> decimal places, a tie going to the even neighbour.
\<close>

definition round_half_even :: "rat \<Rightarrow> int" where
  "round_half_even x =
     (let f = \<lfloor>x\<rfloor>; d = x - of_int f
      in if d < 1 / 2 then f else if 1 / 2 < d then f + 1 else if even f then f else f + 1)"

definition py_round :: "rat \<Rightarrow> nat \<Rightarrow> rat" where
  "py_round x n = of_int (round_half_even (x * 10 ^ n)) / 10 ^ n"

definition ns_per_day :: int where
  "ns_per_day = 86400 * 1000000000"

text \<open>\<^verbatim>\<open>series.dt.date\<close>: the UTC calendar date of every timestamp, missing where the
  timestamp is missing; the accessor exists on datetime columns only. A column whose cells
  are timestamps or missing is taken to be a datetime column, also when every cell is
  missing.\<close>

fun date_of :: "pyval \<Rightarrow> error + pyval" where
  "date_of (PTime t) = Inr (PDate (t div ns_per_day))"
| "date_of PNone = Inr PNone"
| "date_of v = Inl AttributeError"

definition dt_date :: "pyval list \<Rightarrow> error + pyval list" where
  "dt_date vs = map_rows date_of vs"

text \<open>\<^verbatim>\<open>df[c] = values\<close> changes the table in place: an existing column is overwritten,
  a new one is added after the others.\<close>

definition set_column :: "frame \<Rightarrow> string \<Rightarrow> pyval list \<Rightarrow> frame" where
  "set_column df c vs =
     \<lparr>columns = (if c \<in> set (columns df) then columns df else columns df @ [c]),
      rows = map (\<lambda>(r, v). AList.update c v r) (zip (rows df) vs)\<rparr>"

text \<open>
  \<^verbatim>\<open>df.groupby(["order_date", "vendor"])\<close>: the rows with a missing key are dropped, the
  others are grouped by the pair of keys. pandas orders the groups by key; the order of
  the groups is not modelled (they are listed in the order \<open>remdups\<close> gives).
\<close>

definition group_key :: "row \<Rightarrow> pyval \<times> pyval" where
  "group_key r = (cell r ''order_date'', cell r ''vendor'')"

definition keyed :: "row \<Rightarrow> bool" where
  "keyed r = (cell r ''order_date'' \<noteq> PNone \<and> cell r ''vendor'' \<noteq> PNone)"

definition groupby :: "frame \<Rightarrow> error + ((pyval \<times> pyval) \<times> frame) list" where
  "groupby df =
     (if ''order_date'' \<in> set (columns df) \<and> ''vendor'' \<in> set (columns df) then
        (let valid = filter keyed (rows df)
         in Inr (map (\<lambda>k. (k, \<lparr>columns = columns df, rows = filter (\<lambda>r. group_key r = k) valid\<rparr>))
                  (remdups (map group_key valid))))
      else Inl KeyError)"

text \<open>\<^verbatim>\<open>series.sum()\<close> on a numeric column skips missing values.\<close>

fun series_sum :: "pyval list \<Rightarrow> error + rat" where
  "series_sum [] = Inr 0"
| "series_sum (PNum r # vs) = bind (series_sum vs) (\<lambda>s. Inr (r + s))"
| "series_sum (PNone # vs) = series_sum vs"
| "series_sum (v # vs) = Inl TypeError"

text \<open>\<^verbatim>\<open>df[df[c].isin(values)]\<close>.\<close>

definition select_isin :: "frame \<Rightarrow> string \<Rightarrow> pyval list \<Rightarrow> error + frame" where
  "select_isin df c vs =
     bind (column df c) (\<lambda>_. Inr (df\<lparr>rows := filter (\<lambda>r. cell r c \<in> set vs) (rows df)\<rparr>))"

definition daily_columns :: "string list" where
  "daily_columns = [''order_date'', ''vendor'', ''gross_revenue'', ''total_refunds'',
     ''net_revenue'', ''order_count'', ''paid_count'', ''payment_success_rate'', ''refund_rate'']"

text \<open>The body of the loop over the groups (lines 138 to 163).\<close>

definition daily_row :: "frame \<Rightarrow> frame \<Rightarrow> (pyval \<times> pyval) \<times> frame \<Rightarrow> error + row" where
  "daily_row payments_df refunds_df g =
     (case g of ((date, vend), grp) \<Rightarrow>
      bind (column grp ''order_id'') (\<lambda>order_ids.
      bind (select_isin payments_df ''order_id'' order_ids) (\<lambda>payments_subset.
      bind (bind (column payments_subset ''payment_amount'') series_sum) (\<lambda>gross_revenue.
      bind (column payments_subset ''payment_status'') (\<lambda>statuses.
      let paid_count = length (filter (\<lambda>s. s = PStr ''success'') statuses) in
      bind (select_isin refunds_df ''order_id'' order_ids) (\<lambda>refunds_subset.
      bind (bind (column refunds_subset ''refund_amount'') series_sum) (\<lambda>total_refunds.
      let net_revenue = gross_revenue - total_refunds;
          order_count = length order_ids;
          payment_success_rate =
            (if order_count > 0 then PNum (py_round (of_nat paid_count / of_nat order_count) 4)
             else PNone);
          refund_rate =
            (if gross_revenue > 0 then PNum (py_round (total_refunds / gross_revenue) 4)
             else PNone)
      in Inr [(''order_date'', date),
              (''vendor'', vend),
              (''gross_revenue'', PNum gross_revenue),
              (''total_refunds'', PNum total_refunds),
              (''net_revenue'', PNum net_revenue),
              (''order_count'', PNum (of_nat order_count)),
              (''paid_count'', PNum (of_nat paid_count)),
              (''payment_success_rate'', payment_success_rate),
              (''refund_rate'', refund_rate)])))))))"

text \<open>
  The tables are passed by reference, and the aggregator assigns the column
  \<^verbatim>\<open>order_date\<close> to the orders table it is given. The model therefore returns, next to
  the aggregate table, the three tables as they are after the call. (The tables after a
  call that raises are not modelled.)
\<close>

type_synonym tables = "frame \<times> frame \<times> frame"

definition build_fact_order_daily :: "frame \<Rightarrow> frame \<Rightarrow> frame \<Rightarrow> error + (frame \<times> tables)" where
  "build_fact_order_daily orders_df payments_df refunds_df =
     (if df_empty orders_df then Inr (empty_frame, (orders_df, payments_df, refunds_df))
      else
        bind (bind (column orders_df ''created_at'') dt_date) (\<lambda>dates.
        let orders_df' = set_column orders_df ''order_date'' dates in
        bind (groupby orders_df') (\<lambda>groups.
        bind (map_rows (daily_row payments_df refunds_df) groups) (\<lambda>results.
        Inr (DataFrame daily_columns results, (orders_df', payments_df, refunds_df))))))"

section \<open>Quality and integrity checker\<close>





definition len :: "frame \<Rightarrow> nat" where
  "len df = length (rows df)"




definition run_transformation :: "pyenv \<Rightarrow> event list \<Rightarrow> event list \<Rightarrow> event list \<Rightarrow> error + (frame \<times> tables)" where
  "run_transformation env raw_orders raw_payments raw_refunds =
     bind (normalize_orders env raw_orders) (\<lambda>orders_df.
     bind (normalize_payments env raw_payments) (\<lambda>payments_df.
     bind (normalize_refunds env raw_refunds) (\<lambda>refunds_df.
     build_fact_order_daily orders_df payments_df refunds_df)))"

section \<open>Example data\<close>

text \<open>
  An environment for the examples. It agrees with Python and pandas on the values the
  examples pass to it: the date string \<^verbatim>\<open>2024-01-01\<close> (midnight UTC, day 19723 of the
  epoch), timestamps, missing values, the decimal string \<^verbatim>\<open>12.50\<close> and the strings
  \<^verbatim>\<open>abc\<close> and \<^verbatim>\<open>not a date\<close>, which are neither numbers nor dates.
\<close>

definition sample_env :: pyenv where
  "sample_env =
     \<lparr>float_of_str = (\<lambda>s. if s = ''12.50'' then Some (25 / 2) else None),
      to_datetime = (\<lambda>v. case v of
          PTime t \<Rightarrow> Some t
        | PStr s \<Rightarrow> (if s = ''2024-01-01'' then Some (19723 * ns_per_day) else None)
        | _ \<Rightarrow> None)\<rparr>"

definition mk_event :: "string \<Rightarrow> string \<Rightarrow> (string \<times> pyval) list \<Rightarrow> event" where
  "mk_event ty eid p =
     \<lparr>payload = map_of p, event_id = PStr eid, vendor = PStr ''vendorX'', event_type = PStr ty\<rparr>"

text \<open>
  The events of the examples: two orders \<^verbatim>\<open>A\<close> and \<^verbatim>\<open>B\<close> of the same vendor, dated
  2024-01-01; an undated event for order \<^verbatim>\<open>A\<close>; a successful payment of 10 for \<^verbatim>\<open>A\<close>, a
  failed payment of 20 for \<^verbatim>\<open>B\<close> and a second event with the payment id of the first; a
  refund of 3 for \<^verbatim>\<open>A\<close> and a second event with its refund id. The rows are the rows the
  normalizers build from them.
\<close>

definition order_A :: event where
  "order_A = mk_event ''historical_order'' ''o1''
     [(''order_id'', PStr ''A''), (''totalAmount'', PNum 10), (''created_at'', PStr ''2024-01-01'')]"

definition order_B :: event where
  "order_B = mk_event ''historical_order'' ''o2''
     [(''order_id'', PStr ''B''), (''totalAmount'', PNum 20), (''created_at'', PStr ''2024-01-01'')]"

definition order_A_undated :: event where
  "order_A_undated = mk_event ''order_updated'' ''o3''
     [(''order_id'', PStr ''A''), (''totalAmount'', PNum 5)]"

definition payment_A :: event where
  "payment_A = mk_event ''payment_confirmed'' ''p1''
     [(''payment_id'', PStr ''P1''), (''order_id'', PStr ''A''), (''amount'', PNum 10),
      (''status'', PStr ''Success'')]"

definition payment_B :: event where
  "payment_B = mk_event ''payment_attempt'' ''p2''
     [(''payment_id'', PStr ''P2''), (''order_id'', PStr ''B''), (''amount'', PNum 20),
      (''status'', PStr ''FAILED'')]"

definition payment_A_again :: event where
  "payment_A_again = mk_event ''payment_attempt'' ''p3''
     [(''payment_id'', PStr ''P1''), (''order_id'', PStr ''A''), (''amount'', PNum 99),
      (''status'', PStr ''Error'')]"

definition refund_A :: event where
  "refund_A = mk_event ''refund_created'' ''r1''
     [(''refund_id'', PStr ''R1''), (''order_id'', PStr ''A''), (''payment_id'', PStr ''P1''),
      (''amount'', PNum 3)]"

definition refund_A_again :: event where
  "refund_A_again = mk_event ''refund_processed'' ''r2''
     [(''refund_id'', PStr ''R1''), (''order_id'', PStr ''A''), (''payment_id'', PStr ''P1''),
      (''amount'', PNum 1)]"

definition order_row_of :: "string \<Rightarrow> rat \<Rightarrow> pyval \<Rightarrow> string \<Rightarrow> string \<Rightarrow> row" where
  "order_row_of oid amount created eid ty =
     [(''order_id'', PStr oid), (''customer_id'', PNone), (''order_amount'', PNum amount),
      (''order_status'', PNone), (''created_at'', created), (''event_id'', PStr eid),
      (''vendor'', PStr ''vendorX''), (''event_type'', PStr ty)]"

definition payment_row_of :: "string \<Rightarrow> string \<Rightarrow> rat \<Rightarrow> string \<Rightarrow> string \<Rightarrow> row" where
  "payment_row_of pid oid amount status eid =
     [(''payment_id'', PStr pid), (''order_id'', PStr oid), (''payment_amount'', PNum amount),
      (''payment_status'', PStr status), (''payment_method'', PNone), (''payment_date'', PNone),
      (''event_id'', PStr eid), (''vendor'', PStr ''vendorX'')]"

definition refund_row_of :: "string \<Rightarrow> string \<Rightarrow> string \<Rightarrow> rat \<Rightarrow> string \<Rightarrow> row" where
  "refund_row_of rid oid pid amount eid =
     [(''refund_id'', PStr rid), (''order_id'', PStr oid), (''payment_id'', PStr pid),
      (''refund_amount'', PNum amount), (''refund_reason'', PNone), (''refund_type'', PNone),
      (''refund_date'', PNone), (''event_id'', PStr eid), (''vendor'', PStr ''vendorX'')]"

definition jan1 :: pyval where
  "jan1 = PTime (19723 * ns_per_day)"

text \<open>A payment with a negative amount and one whose amount is not a number.\<close>

definition payment_negative :: event where
  "payment_negative = mk_event ''payment_confirmed'' ''p4''
     [(''payment_id'', PStr ''P4''), (''order_id'', PStr ''A''), (''amount'', PNum (- 5)),
      (''status'', PStr ''PAID'')]"

definition payment_malformed :: event where
  "payment_malformed = mk_event ''payment_confirmed'' ''p5''
     [(''payment_id'', PStr ''P5''), (''order_id'', PStr ''A''), (''amount'', PStr ''abc''),
      (''status'', PStr ''PAID'')]"

section \<open>Notions used in the statements\<close>

text \<open>The number in a numeric cell (0 for a missing value), the calendar date of an
  order row, the row with its \<^verbatim>\<open>order_date\<close> cell, and the orders table with the column
  \<^verbatim>\<open>order_date\<close> assigned.\<close>

definition number :: "pyval \<Rightarrow> rat" where
  "number v = (case v of PNum a \<Rightarrow> a | _ \<Rightarrow> 0)"

definition order_date_of :: "row \<Rightarrow> pyval" where
  "order_date_of g = (case date_of (cell g ''created_at'') of Inr d \<Rightarrow> d | Inl e \<Rightarrow> PNone)"

definition with_order_date :: "row \<Rightarrow> row" where
  "with_order_date g = AList.update ''order_date'' (order_date_of g) g"

definition dated :: "frame \<Rightarrow> frame" where
  "dated df = set_column df ''order_date'' (map order_date_of (rows df))"

text \<open>A third order of the same day and vendor, and the canonical tables of the examples.\<close>

definition order_C :: event where
  "order_C = mk_event ''historical_order'' ''o4''
     [(''order_id'', PStr ''C''), (''totalAmount'', PNum 30), (''created_at'', PStr ''2024-01-01'')]"

definition example_orders :: frame where
  "example_orders =
     \<lparr>columns = order_columns,
      rows = [order_row_of ''A'' 10 jan1 ''o1'' ''historical_order'',
              order_row_of ''B'' 20 jan1 ''o2'' ''historical_order'']\<rparr>"

definition example_orders3 :: frame where
  "example_orders3 =
     \<lparr>columns = order_columns,
      rows = [order_row_of ''A'' 10 jan1 ''o1'' ''historical_order'',
              order_row_of ''B'' 20 jan1 ''o2'' ''historical_order'',
              order_row_of ''C'' 30 jan1 ''o4'' ''historical_order'']\<rparr>"

definition example_payments :: frame where
  "example_payments =
     \<lparr>columns = payment_columns,
      rows = [payment_row_of ''P1'' ''A'' 10 ''success'' ''p1'',
              payment_row_of ''P2'' ''B'' 20 ''failed'' ''p2'']\<rparr>"

definition example_payment :: frame where
  "example_payment =
     \<lparr>columns = payment_columns, rows = [payment_row_of ''P1'' ''A'' 10 ''success'' ''p1'']\<rparr>"

definition example_refunds :: frame where
  "example_refunds =
     \<lparr>columns = refund_columns, rows = [refund_row_of ''R1'' ''A'' ''P1'' 3 ''r1'']\<rparr>"

text \<open>An order whose date does not parse, with a payment for it, and the tables they give.\<close>

definition order_U :: event where
  "order_U = mk_event ''order_created'' ''o5''
     [(''order_id'', PStr ''U''), (''totalAmount'', PNum 40), (''created_at'', PStr ''not a date'')]"

definition payment_U :: event where
  "payment_U = mk_event ''payment_confirmed'' ''p6''
     [(''payment_id'', PStr ''P6''), (''order_id'', PStr ''U''), (''amount'', PNum 40),
      (''status'', PStr ''PAID'')]"

definition example_orders_undated :: frame where
  "example_orders_undated =
     \<lparr>columns = order_columns,
      rows = [order_row_of ''U'' 40 PNone ''o5'' ''order_created'',
              order_row_of ''A'' 10 jan1 ''o1'' ''historical_order'',
              order_row_of ''B'' 20 jan1 ''o2'' ''historical_order'']\<rparr>"

definition example_payments_undated :: frame where
  "example_payments_undated =
     \<lparr>columns = payment_columns,
      rows = [payment_row_of ''P1'' ''A'' 10 ''success'' ''p1'',
              payment_row_of ''P2'' ''B'' 20 ''failed'' ''p2'',
              payment_row_of ''P6'' ''U'' 40 ''success'' ''p6'']\<rparr>"





section \<open>Auxiliary lemmas\<close>

lemma bind_Inr [simp]: "bind (Inr x) f = f x"
  and bind_Inl [simp]: "bind (Inl e) f = Inl e"
  by (simp_all add: bind_def)

lemma bind_eq_Inr: "bind m f = Inr y \<longleftrightarrow> (\<exists>x. m = Inr x \<and> f x = Inr y)"
  by (cases m) simp_all




lemma map_rows_Inr_length: "map_rows f xs = Inr ys \<Longrightarrow> length ys = length xs"
  by (induction xs arbitrary: ys) (auto simp: bind_eq_Inr)

lemma map_rows_Inr_set:
  "map_rows f xs = Inr ys \<Longrightarrow> y \<in> set ys \<Longrightarrow> \<exists>x \<in> set xs. f x = Inr y"
  by (induction xs arbitrary: ys) (auto simp: bind_eq_Inr)

lemma DataFrame_rows: "rows (DataFrame cols rs) = rs"
  and DataFrame_columns: "rs \<noteq> [] \<Longrightarrow> columns (DataFrame cols rs) = cols"
  by (simp_all add: DataFrame_def empty_frame_def)

lemma lower_examples:
  "lower ''FAILED'' = ''failed''" "lower ''fail'' = ''fail''" "lower ''Error'' = ''error''"
  "lower ''Success'' = ''success''" "lower ''PAID'' = ''paid''" "lower ''Completed'' = ''completed''"
  by code_simp+

subsection \<open>Duplicates\<close>




lemma set_drop_duplicates_last_subset: "set (drop_duplicates_last k rs) \<subseteq> set rs"
  by (induction rs) auto




lemma keys_drop_duplicates_last:
  "(\<lambda>x. cell x k) ` set (drop_duplicates_last k rs) = (\<lambda>x. cell x k) ` set rs"
  by (induction rs) auto

lemma distinct_drop_duplicates_last:
  "distinct (map (\<lambda>x. cell x k) (drop_duplicates_last k rs))"
proof (induction rs)
  case Nil
  show ?case by simp
next
  case (Cons r rs)
  have "cell r k \<notin> (\<lambda>x. cell x k) ` set (drop_duplicates_last k rs)"
    if "cell r k \<notin> (\<lambda>x. cell x k) ` set rs"
    using that by (simp add: keys_drop_duplicates_last)
  with Cons show ?case by auto
qed

lemma drop_duplicates_last_latest:
  assumes "sorted (map c rs)" "r \<in> set (drop_duplicates_last k rs)" "r' \<in> set rs"
    "cell r' k = cell r k"
  shows "c r' \<le> c r"
  using assms
proof (induction rs)
  case Nil
  then show ?case by simp
next
  case (Cons x xs)
  show ?case
  proof (cases "cell x k \<in> (\<lambda>y. cell y k) ` set xs")
    case True
    with Cons.prems have r: "r \<in> set (drop_duplicates_last k xs)" by simp
    then have rx: "r \<in> set xs" using set_drop_duplicates_last_subset by blast
    show ?thesis
    proof (cases "r' \<in> set xs")
      case True
      with Cons r show ?thesis by simp
    next
      case False
      with Cons.prems have "r' = x" by simp
      with Cons.prems(1) rx show ?thesis by simp
    qed
  next
    case False
    show ?thesis
    proof (cases "r = x")
      case True
      have "r' \<notin> set xs"
      proof
        assume "r' \<in> set xs"
        then have "cell r' k \<in> (\<lambda>y. cell y k) ` set xs" by (rule imageI)
        with False True Cons.prems(4) show False by simp
      qed
      with Cons.prems(3) have "r' = x" by simp
      with True show ?thesis by simp
    next
      case rnx: False
      with False Cons.prems have r: "r \<in> set (drop_duplicates_last k xs)" by simp
      then have rx: "r \<in> set xs" using set_drop_duplicates_last_subset by blast
      show ?thesis
      proof (cases "r' \<in> set xs")
        case True
        with Cons r show ?thesis by simp
      next
        case False
        with Cons.prems have "r' = x" by simp
        with Cons.prems(1) rx show ?thesis by simp
      qed
    qed
  qed
qed

subsection \<open>Rows built by the normalizers\<close>

lemma normalize_orders_rows:
  assumes "normalize_orders env events = Inr df" "map_rows (order_row env) events = Inr rs"
  shows "rows df = drop_duplicates_last ''order_id'' (sort_values ''created_at'' rs)"
proof (cases "events = []")
  case True
  with assms show ?thesis by (auto simp: normalize_orders_def empty_frame_def sort_values_def)
next
  case False
  with assms show ?thesis by (auto simp: normalize_orders_def DataFrame_def Let_def empty_frame_def)
qed

lemma order_row_cells:
  assumes "order_row env e = Inr r"
  shows "cell r ''order_id'' = get (payload e) ''order_id''"
    and "cell r ''created_at'' = timestamp env (get (payload e) ''created_at'')"
  using assms by (auto simp: order_row_def Let_def bind_eq_Inr cell_def)

lemma example_rows:
  "order_row sample_env order_A = Inr (order_row_of ''A'' 10 jan1 ''o1'' ''historical_order'')"
  "order_row sample_env order_B = Inr (order_row_of ''B'' 20 jan1 ''o2'' ''historical_order'')"
  "order_row sample_env order_A_undated = Inr (order_row_of ''A'' 5 PNone ''o3'' ''order_updated'')"
  "payment_row sample_env payment_A = Inr (payment_row_of ''P1'' ''A'' 10 ''success'' ''p1'')"
  "payment_row sample_env payment_B = Inr (payment_row_of ''P2'' ''B'' 20 ''failed'' ''p2'')"
  "payment_row sample_env payment_A_again = Inr (payment_row_of ''P1'' ''A'' 99 ''failed'' ''p3'')"
  "refund_row sample_env refund_A = Inr (refund_row_of ''R1'' ''A'' ''P1'' 3 ''r1'')"
  "refund_row sample_env refund_A_again = Inr (refund_row_of ''R1'' ''A'' ''P1'' 1 ''r2'')"
  by (simp_all add: order_row_def payment_row_def refund_row_def
      order_A_def order_B_def order_A_undated_def payment_A_def payment_B_def payment_A_again_def
      refund_A_def refund_A_again_def order_row_of_def payment_row_of_def refund_row_of_def
      jan1_def mk_event_def get_def get_default_def timestamp_def sample_env_def
      payment_status_def resolved_status_def py_or_def lower_examples
      payment_amount_raw_def refund_amount_raw_def amount_or_zero_def)


lemma payment_row_status:
  assumes "payment_row env ev = Inr r"
  shows "payment_status (payload ev) = Inr (cell r ''payment_status'')"
  using assms
  by (auto simp: payment_row_def Let_def bind_def cell_def split: sum.splits)

lemma payment_status_of_string:
  assumes "resolved_status p = PStr s" "s \<noteq> []"
  shows "payment_status p = Inr (PStr
           (if lower s \<in> {''failed'', ''fail'', ''error''} then ''failed''
            else if lower s \<in> {''success'', ''successful'', ''completed'', ''paid''} then ''success''
            else lower s))"
  using assms by (simp add: payment_status_def)

subsection \<open>Amounts\<close>

lemma map_rows_fails:
  "x \<in> set xs \<Longrightarrow> f x = Inl e \<Longrightarrow> \<exists>e'. map_rows f xs = Inl e'"
proof (induction xs)
  case Nil
  then show ?case by simp
next
  case (Cons y ys)
  show ?case
  proof (cases "f y")
    case (Inl a)
    then show ?thesis by simp
  next
    case (Inr b)
    with Cons obtain e' where "map_rows f ys = Inl e'" by auto
    with Inr show ?thesis by simp
  qed
qed

lemma payment_row_amount:
  "payment_row env ev = Inr r \<Longrightarrow>
   amount_or_zero env (payment_amount_raw (payload ev)) = Inr (a :: rat) \<Longrightarrow>
   cell r ''payment_amount'' = PNum a"
  by (auto simp: payment_row_def Let_def bind_eq_Inr cell_def)

lemma payment_row_amount_fails:
  "amount_or_zero env (payment_amount_raw (payload ev)) = Inl e \<Longrightarrow>
   \<exists>e'. payment_row env ev = Inl e'"
  by (cases "payment_status (payload ev)") (simp_all add: payment_row_def Let_def)

lemma refund_row_amount:
  "refund_row env ev = Inr r \<Longrightarrow>
   amount_or_zero env (refund_amount_raw (payload ev)) = Inr (a :: rat) \<Longrightarrow>
   cell r ''refund_amount'' = PNum a"
  by (auto simp: refund_row_def Let_def bind_eq_Inr cell_def)

lemma refund_row_amount_fails:
  "amount_or_zero env (refund_amount_raw (payload ev)) = Inl e \<Longrightarrow>
   \<exists>e'. refund_row env ev = Inl e'"
  by (simp add: refund_row_def Let_def)

lemma order_row_amount:
  "order_row env ev = Inr r \<Longrightarrow>
   py_float env (get_default (payload ev) ''totalAmount'' (PNum 0)) = Inr (a :: rat) \<Longrightarrow>
   cell r ''order_amount'' = PNum a"
  by (auto simp: order_row_def Let_def bind_eq_Inr cell_def)

lemma order_row_amount_fails:
  "py_float env (get_default (payload ev) ''totalAmount'' (PNum 0)) = Inl e \<Longrightarrow>
   \<exists>e'. order_row env ev = Inl e'"
  by (simp add: order_row_def Let_def)

lemma amount_or_zero_cases:
  "\<not> truthy v \<Longrightarrow> amount_or_zero env v = Inr 0"
  "amount_or_zero env (PNum a) = Inr a"
  "s \<noteq> [] \<Longrightarrow> float_of_str env s = Some a \<Longrightarrow> amount_or_zero env (PStr s) = Inr a"
  "s \<noteq> [] \<Longrightarrow> float_of_str env s = None \<Longrightarrow> amount_or_zero env (PStr s) = Inl ValueError"
  by (simp_all add: amount_or_zero_def)

lemma normalize_fails:
  "ev \<in> set events \<Longrightarrow> order_row env ev = Inl e \<Longrightarrow> \<exists>e'. normalize_orders env events = Inl e'"
  "ev \<in> set events \<Longrightarrow> payment_row env ev = Inl e \<Longrightarrow> \<exists>e'. normalize_payments env events = Inl e'"
  "ev \<in> set events \<Longrightarrow> refund_row env ev = Inl e \<Longrightarrow> \<exists>e'. normalize_refunds env events = Inl e'"
proof -
  show "ev \<in> set events \<Longrightarrow> order_row env ev = Inl e \<Longrightarrow> \<exists>e'. normalize_orders env events = Inl e'"
    using map_rows_fails[of ev events "order_row env" e]
    by (auto simp: normalize_orders_def)
  show "ev \<in> set events \<Longrightarrow> payment_row env ev = Inl e \<Longrightarrow> \<exists>e'. normalize_payments env events = Inl e'"
    using map_rows_fails[of ev events "payment_row env" e]
    by (auto simp: normalize_payments_def)
  show "ev \<in> set events \<Longrightarrow> refund_row env ev = Inl e \<Longrightarrow> \<exists>e'. normalize_refunds env events = Inl e'"
    using map_rows_fails[of ev events "refund_row env" e]
    by (auto simp: normalize_refunds_def)
qed

lemma build_fact_order_daily_empty:
  "df_empty orders_df \<Longrightarrow>
   build_fact_order_daily orders_df payments_df refunds_df
     = Inr (empty_frame, (orders_df, payments_df, refunds_df))"
  by (simp add: build_fact_order_daily_def)

subsection \<open>The aggregator\<close>

lemma series_sum_number: "series_sum vs = Inr s \<Longrightarrow> s = sum_list (map number vs)"
proof (induction vs arbitrary: s rule: series_sum.induct)
  case 1
  then show ?case by simp
next
  case (2 r vs)
  then show ?case by (auto simp: bind_eq_Inr number_def)
next
  case (3 vs)
  then show ?case by (simp add: number_def)
qed simp_all

lemma cell_update: "cell (AList.update k v r) c = (if c = k then v else cell r c)"
  by (simp add: cell_def update_conv')

lemma cell_with_order_date:
  "cell (with_order_date g) ''order_date'' = order_date_of g"
  "c \<noteq> ''order_date'' \<Longrightarrow> cell (with_order_date g) c = cell g c"
  by (simp_all add: with_order_date_def cell_update)

lemma dt_date_Inr:
  "dt_date (map (\<lambda>g. cell g ''created_at'') rs) = Inr ds \<Longrightarrow>
   ds = map order_date_of rs \<and> (\<forall>g \<in> set rs. \<exists>d. date_of (cell g ''created_at'') = Inr d)"
  unfolding dt_date_def
proof (induction rs arbitrary: ds)
  case Nil
  then show ?case by simp
next
  case (Cons g rs)
  then show ?case by (auto simp: bind_eq_Inr order_date_of_def)
qed

lemma dt_date_total:
  "\<forall>g \<in> set rs. \<exists>d. date_of (cell g ''created_at'') = Inr d \<Longrightarrow>
   dt_date (map (\<lambda>g. cell g ''created_at'') rs) = Inr (map order_date_of rs)"
  unfolding dt_date_def
  by (induction rs) (auto simp: order_date_of_def)

lemma zip_map_self: "map (\<lambda>(r, v). h r v) (zip rs (map f rs)) = map (\<lambda>r. h r (f r)) rs"
  by (induction rs) simp_all

lemma set_column_order_date:
  "set_column df ''order_date'' (map order_date_of (rows df)) =
     \<lparr>columns = (if ''order_date'' \<in> set (columns df) then columns df
                  else columns df @ [''order_date'']),
      rows = map with_order_date (rows df)\<rparr>"
  by (simp add: set_column_def zip_map_self with_order_date_def)

lemma dated_simps:
  "rows (dated df) = map with_order_date (rows df)"
  "columns (dated df) = (if ''order_date'' \<in> set (columns df) then columns df
                  else columns df @ [''order_date''])"
  by (simp_all add: dated_def set_column_order_date)

lemma build_nonempty_Inr:
  assumes "build_fact_order_daily orders_df payments_df refunds_df = Inr (daily, t)"
    and "\<not> df_empty orders_df"
  shows "\<exists>groups results.
      ''created_at'' \<in> set (columns orders_df)
    \<and> (\<forall>g \<in> set (rows orders_df). \<exists>d. date_of (cell g ''created_at'') = Inr d)
    \<and> groupby (dated orders_df) = Inr groups
    \<and> map_rows (daily_row payments_df refunds_df) groups = Inr results
    \<and> daily = DataFrame daily_columns results
    \<and> t = (dated orders_df, payments_df, refunds_df)"
proof -
  from assms obtain ds groups results where
    c: "bind (column orders_df ''created_at'') dt_date = Inr ds"
    and g: "groupby (set_column orders_df ''order_date'' ds) = Inr groups"
    and m: "map_rows (daily_row payments_df refunds_df) groups = Inr results"
    and r: "daily = DataFrame daily_columns results"
      "t = (set_column orders_df ''order_date'' ds, payments_df, refunds_df)"
    by (auto simp: build_fact_order_daily_def bind_eq_Inr Let_def)
  from c have col: "''created_at'' \<in> set (columns orders_df)"
    and d: "dt_date (map (\<lambda>g. cell g ''created_at'') (rows orders_df)) = Inr ds"
    by (auto simp: bind_eq_Inr column_def split: if_splits)
  from dt_date_Inr[OF d] have ds: "ds = map order_date_of (rows orders_df)"
    and ok: "\<forall>g \<in> set (rows orders_df). \<exists>d. date_of (cell g ''created_at'') = Inr d"
    by blast+
  from col ok g m r show ?thesis unfolding ds dated_def by blast
qed

lemma build_nonempty_eq:
  assumes "\<not> df_empty orders_df" "''created_at'' \<in> set (columns orders_df)"
    "\<forall>g \<in> set (rows orders_df). \<exists>d. date_of (cell g ''created_at'') = Inr d"
  shows "build_fact_order_daily orders_df payments_df refunds_df =
     bind (groupby (dated orders_df)) (\<lambda>groups.
     bind (map_rows (daily_row payments_df refunds_df) groups) (\<lambda>results.
     Inr (DataFrame daily_columns results, (dated orders_df, payments_df, refunds_df))))"
  using assms dt_date_total[of "rows orders_df"]
  by (simp add: build_fact_order_daily_def column_def dated_def Let_def)

lemma groupby_Inr:
  "groupby df = Inr groups \<Longrightarrow>
   ''vendor'' \<in> set (columns df) \<and> ''order_date'' \<in> set (columns df) \<and>
   groups = map (\<lambda>k. (k, \<lparr>columns = columns df,
                          rows = filter (\<lambda>r. group_key r = k) (filter keyed (rows df))\<rparr>))
              (remdups (map group_key (filter keyed (rows df))))"
  by (auto simp: groupby_def Let_def split: if_splits)

text \<open>What the loop body computes for one group.\<close>

lemma daily_row_Inr:
  assumes "daily_row payments_df refunds_df ((d, v), grp) = Inr x"
  defines "ids \<equiv> map (\<lambda>g. cell g ''order_id'') (rows grp)"
  defines "P \<equiv> filter (\<lambda>q. cell q ''order_id'' \<in> set ids) (rows payments_df)"
  defines "R \<equiv> filter (\<lambda>q. cell q ''order_id'' \<in> set ids) (rows refunds_df)"
  defines "gross \<equiv> sum_list (map (\<lambda>q. number (cell q ''payment_amount'')) P)"
  defines "refunds \<equiv> sum_list (map (\<lambda>q. number (cell q ''refund_amount'')) R)"
  defines "paid \<equiv> length (filter (\<lambda>q. cell q ''payment_status'' = PStr ''success'') P)"
  shows "x = [(''order_date'', d), (''vendor'', v),
              (''gross_revenue'', PNum gross), (''total_refunds'', PNum refunds),
              (''net_revenue'', PNum (gross - refunds)),
              (''order_count'', PNum (of_nat (length ids))),
              (''paid_count'', PNum (of_nat paid)),
              (''payment_success_rate'',
                 if length ids > 0 then PNum (py_round (of_nat paid / of_nat (length ids)) 4) else PNone),
              (''refund_rate'',
                 if gross > 0 then PNum (py_round (refunds / gross) 4) else PNone)]"
proof -
  from assms(1) obtain oids ps g sts rs t where
    1: "column grp ''order_id'' = Inr oids"
    and 2: "select_isin payments_df ''order_id'' oids = Inr ps"
    and 3: "bind (column ps ''payment_amount'') series_sum = Inr g"
    and 4: "column ps ''payment_status'' = Inr sts"
    and 5: "select_isin refunds_df ''order_id'' oids = Inr rs"
    and 6: "bind (column rs ''refund_amount'') series_sum = Inr t"
    and x: "x = [(''order_date'', d), (''vendor'', v),
              (''gross_revenue'', PNum g), (''total_refunds'', PNum t),
              (''net_revenue'', PNum (g - t)),
              (''order_count'', PNum (of_nat (length oids))),
              (''paid_count'', PNum (of_nat (length (filter (\<lambda>s. s = PStr ''success'') sts)))),
              (''payment_success_rate'',
                 if length oids > 0
                 then PNum (py_round (of_nat (length (filter (\<lambda>s. s = PStr ''success'') sts))
                                      / of_nat (length oids)) 4) else PNone),
              (''refund_rate'',
                 if g > 0 then PNum (py_round (t / g) 4) else PNone)]"
    unfolding daily_row_def Let_def prod.case bind_eq_Inr by blast
  from 1 have oids: "oids = ids"
    by (auto simp: column_def ids_def split: if_splits)
  from 2 have ps: "rows ps = P"
    by (auto simp: select_isin_def bind_eq_Inr P_def oids)
  from 5 have rs: "rows rs = R"
    by (auto simp: select_isin_def bind_eq_Inr R_def oids)
  from 3 have "series_sum (map (\<lambda>q. cell q ''payment_amount'') P) = Inr g"
    by (auto simp: bind_eq_Inr column_def ps split: if_splits)
  from series_sum_number[OF this] have g: "g = gross"
    by (simp add: gross_def o_def)
  from 6 have "series_sum (map (\<lambda>q. cell q ''refund_amount'') R) = Inr t"
    by (auto simp: bind_eq_Inr column_def rs split: if_splits)
  from series_sum_number[OF this] have t: "t = refunds"
    by (simp add: refunds_def o_def)
  from 4 have sts: "sts = map (\<lambda>q. cell q ''payment_status'') P"
    by (auto simp: column_def ps split: if_splits)
  have paid: "length (filter (\<lambda>s. s = PStr ''success'') sts) = paid"
    by (simp add: sts paid_def filter_map o_def)
  show ?thesis unfolding x oids g t paid ..
qed

lemma map_rows_map:
  "map_rows f xs = Inr ys \<Longrightarrow> (\<And>x y. x \<in> set xs \<Longrightarrow> f x = Inr y \<Longrightarrow> h y = k x) \<Longrightarrow>
   map h ys = map k xs"
proof (induction xs arbitrary: ys)
  case Nil
  then show ?case by simp
next
  case (Cons x xs)
  from Cons.prems(1) obtain y zs where *: "f x = Inr y" "map_rows f xs = Inr zs" "ys = y # zs"
    by (auto simp: bind_eq_Inr)
  from Cons.IH[OF *(2)] Cons.prems(2) have "map h zs = map k xs" by simp
  moreover from Cons.prems(2)[of x y] * have "h y = k x" by simp
  ultimately show ?case using * by simp
qed

lemma order_date_of_eq:
  "\<exists>d'. date_of (cell g ''created_at'') = Inr d' \<Longrightarrow>
   order_date_of g = d \<longleftrightarrow> date_of (cell g ''created_at'') = Inr d"
  by (auto simp: order_date_of_def)

lemma group_key_with_order_date:
  "group_key (with_order_date g) = (order_date_of g, cell g ''vendor'')"
  "keyed (with_order_date g) \<longleftrightarrow> order_date_of g \<noteq> PNone \<and> cell g ''vendor'' \<noteq> PNone"
  by (simp_all add: group_key_def keyed_def cell_with_order_date)

lemma group_rows:
  assumes "\<forall>g \<in> set rs. \<exists>d'. date_of (cell g ''created_at'') = Inr d'"
    and "d \<noteq> PNone" "v \<noteq> PNone"
  shows "filter (\<lambda>r. group_key r = (d, v)) (filter keyed (map with_order_date rs))
     = map with_order_date
         (filter (\<lambda>g. date_of (cell g ''created_at'') = Inr d \<and> cell g ''vendor'' = v) rs)"
proof -
  have "filter (\<lambda>r. group_key r = (d, v)) (filter keyed (map with_order_date rs))
      = map with_order_date
          (filter (\<lambda>g. keyed (with_order_date g) \<and> group_key (with_order_date g) = (d, v)) rs)"
    by (simp add: filter_map o_def conj_commute)
  also have "filter (\<lambda>g. keyed (with_order_date g) \<and> group_key (with_order_date g) = (d, v)) rs
      = filter (\<lambda>g. date_of (cell g ''created_at'') = Inr d \<and> cell g ''vendor'' = v) rs"
  proof (rule filter_cong[OF refl])
    fix g assume "g \<in> set rs"
    with assms(1) have "\<exists>d'. date_of (cell g ''created_at'') = Inr d'" by blast
    from order_date_of_eq[OF this, of d] assms(2,3)
    show "(keyed (with_order_date g) \<and> group_key (with_order_date g) = (d, v))
        = (date_of (cell g ''created_at'') = Inr d \<and> cell g ''vendor'' = v)"
      by (auto simp: group_key_with_order_date)
  qed
  finally show ?thesis .
qed

lemma keyed_group_key: "keyed r \<Longrightarrow> fst (group_key r) \<noteq> PNone \<and> snd (group_key r) \<noteq> PNone"
  by (simp add: keyed_def group_key_def)

lemma daily_row_key:
  "daily_row payments_df refunds_df (k, grp) = Inr x \<Longrightarrow>
   (cell x ''order_date'', cell x ''vendor'') = k"
  using daily_row_Inr[of payments_df refunds_df "fst k" "snd k" grp x]
  by (simp add: cell_def)

text \<open>Rows of the aggregate table, one for each key of a keyed order.\<close>

lemma daily_rows:
  assumes "build_fact_order_daily orders_df payments_df refunds_df = Inr (daily, t)"
    and "\<not> df_empty orders_df"
  defines "valid \<equiv> filter keyed (map with_order_date (rows orders_df))"
  shows "\<forall>g \<in> set (rows orders_df). \<exists>d. date_of (cell g ''created_at'') = Inr d"
    and "map (\<lambda>x. (cell x ''order_date'', cell x ''vendor'')) (rows daily)
           = remdups (map group_key valid)"
    and "x \<in> set (rows daily) \<Longrightarrow> \<exists>d v grp. (d, v) \<in> set (map group_key valid)
           \<and> rows grp = filter (\<lambda>r. group_key r = (d, v)) valid
           \<and> daily_row payments_df refunds_df ((d, v), grp) = Inr x"
proof -
  from build_nonempty_Inr[OF assms(1,2)] obtain groups results where
    ok: "\<forall>g \<in> set (rows orders_df). \<exists>d. date_of (cell g ''created_at'') = Inr d"
    and g: "groupby (dated orders_df) = Inr groups"
    and m: "map_rows (daily_row payments_df refunds_df) groups = Inr results"
    and r: "daily = DataFrame daily_columns results"
    by blast
  from groupby_Inr[OF g] have groups:
    "groups = map (\<lambda>k. (k, \<lparr>columns = columns (dated orders_df),
                          rows = filter (\<lambda>r. group_key r = k) valid\<rparr>))
              (remdups (map group_key valid))"
    by (simp add: dated_simps valid_def)
  show "\<forall>g \<in> set (rows orders_df). \<exists>d. date_of (cell g ''created_at'') = Inr d" by (rule ok)
  have "map (\<lambda>x. (cell x ''order_date'', cell x ''vendor'')) results = map fst groups"
  proof (rule map_rows_map[OF m])
    fix gr x assume "daily_row payments_df refunds_df gr = Inr x"
    then show "(cell x ''order_date'', cell x ''vendor'') = fst gr"
      using daily_row_key[of payments_df refunds_df "fst gr" "snd gr" x] by simp
  qed
  then show "map (\<lambda>x. (cell x ''order_date'', cell x ''vendor'')) (rows daily)
           = remdups (map group_key valid)"
    by (simp add: r DataFrame_rows groups o_def)
  show "\<exists>d v grp. (d, v) \<in> set (map group_key valid)
           \<and> rows grp = filter (\<lambda>r. group_key r = (d, v)) valid
           \<and> daily_row payments_df refunds_df ((d, v), grp) = Inr x"
    if "x \<in> set (rows daily)"
  proof -
    from that have "x \<in> set results" by (simp add: r DataFrame_rows)
    from map_rows_Inr_set[OF m this] obtain gr where
      gr: "gr \<in> set groups" "daily_row payments_df refunds_df gr = Inr x" by blast
    from gr(1) obtain k where k: "k \<in> set (map group_key valid)"
      "gr = (k, \<lparr>columns = columns (dated orders_df),
                          rows = filter (\<lambda>r. group_key r = k) valid\<rparr>)"
      unfolding groups by auto
    obtain d v where dv: "k = (d, v)" by (cases k)
    let ?grp = "\<lparr>columns = columns (dated orders_df),
                          rows = filter (\<lambda>r. group_key r = (d, v)) valid\<rparr>"
    from k gr(2) have "(d, v) \<in> set (map group_key valid)"
      "rows ?grp = filter (\<lambda>r. group_key r = (d, v)) valid"
      "daily_row payments_df refunds_df ((d, v), ?grp) = Inr x"
      unfolding dv by simp_all
    then show ?thesis by blast
  qed
qed

lemma aggregate_row:
  assumes b: "build_fact_order_daily orders_df payments_df refunds_df = Inr (daily, t)"
    and ne: "\<not> df_empty orders_df" and x: "x \<in> set (rows daily)"
  defines "G \<equiv> filter (\<lambda>g. date_of (cell g ''created_at'') = Inr (cell x ''order_date'')
                           \<and> cell g ''vendor'' = cell x ''vendor'') (rows orders_df)"
  defines "ids \<equiv> map (\<lambda>g. cell g ''order_id'') G"
  defines "P \<equiv> filter (\<lambda>q. cell q ''order_id'' \<in> set ids) (rows payments_df)"
  defines "R \<equiv> filter (\<lambda>q. cell q ''order_id'' \<in> set ids) (rows refunds_df)"
  defines "gross \<equiv> sum_list (map (\<lambda>q. number (cell q ''payment_amount'')) P)"
  defines "refunds \<equiv> sum_list (map (\<lambda>q. number (cell q ''refund_amount'')) R)"
  defines "paid \<equiv> length (filter (\<lambda>q. cell q ''payment_status'' = PStr ''success'') P)"
  shows "cell x ''order_date'' \<noteq> PNone \<and> cell x ''vendor'' \<noteq> PNone \<and> G \<noteq> [] \<and>
         x = [(''order_date'', cell x ''order_date''), (''vendor'', cell x ''vendor''),
              (''gross_revenue'', PNum gross), (''total_refunds'', PNum refunds),
              (''net_revenue'', PNum (gross - refunds)),
              (''order_count'', PNum (of_nat (length G))),
              (''paid_count'', PNum (of_nat paid)),
              (''payment_success_rate'', PNum (py_round (of_nat paid / of_nat (length G)) 4)),
              (''refund_rate'',
                 if gross > 0 then PNum (py_round (refunds / gross) 4) else PNone)]"
proof -
  let ?valid = "filter keyed (map with_order_date (rows orders_df))"
  from daily_rows(3)[OF b ne x] obtain d v grp where
    k: "(d, v) \<in> set (map group_key ?valid)"
    and grp: "rows grp = filter (\<lambda>r. group_key r = (d, v)) ?valid"
    and row: "daily_row payments_df refunds_df ((d, v), grp) = Inr x"
    by blast
  from k obtain r0 where "keyed r0" "group_key r0 = (d, v)" by auto
  with keyed_group_key[of r0] have dv: "d \<noteq> PNone" "v \<noteq> PNone" by simp_all
  from daily_row_key[OF row] have key: "cell x ''order_date'' = d" "cell x ''vendor'' = v"
    by simp_all
  from group_rows[OF daily_rows(1)[OF b ne] dv] grp
  have grp': "rows grp = map with_order_date G"
    by (simp add: G_def key)
  have ids': "map (\<lambda>g. cell g ''order_id'') (rows grp) = ids"
    by (simp add: grp' ids_def o_def cell_with_order_date)
  from k have "filter (\<lambda>r. group_key r = (d, v)) ?valid \<noteq> []"
    by (auto simp: filter_empty_conv)
  with grp grp' have G: "G \<noteq> []" by auto
  have len: "length ids = length G" by (simp add: ids_def)
  from daily_row_Inr[OF row] G
  have "x = [(''order_date'', d), (''vendor'', v),
              (''gross_revenue'', PNum gross), (''total_refunds'', PNum refunds),
              (''net_revenue'', PNum (gross - refunds)),
              (''order_count'', PNum (of_nat (length G))),
              (''paid_count'', PNum (of_nat paid)),
              (''payment_success_rate'', PNum (py_round (of_nat paid / of_nat (length G)) 4)),
              (''refund_rate'',
                 if gross > 0 then PNum (py_round (refunds / gross) 4) else PNone)]"
    unfolding ids' len P_def[symmetric] R_def[symmetric] gross_def[symmetric]
      refunds_def[symmetric] paid_def[symmetric]
    by simp
  with dv G key show ?thesis by simp
qed

subsection \<open>The examples, evaluated\<close>

lemma py_round_examples:
  "py_round (1 / 2) 4 = 1 / 2" "py_round (1 / 10) 4 = 1 / 10" "py_round (1 / 3) 4 = 3333 / 10000"
  "py_round (3 / 10) 4 = 3 / 10" "py_round (1 / 1000) 2 = 0" "py_round 0 2 = 0" "py_round 3 2 = 3"
  "py_round (- 3) 2 = - 3" "py_round 10 2 = 10" "py_round 7 2 = 7" "py_round 1 4 = 1"
  by code_simp+

lemma order_C_row:
  "order_row sample_env order_C = Inr (order_row_of ''C'' 30 jan1 ''o4'' ''historical_order'')"
  by (simp add: order_row_def order_C_def order_row_of_def
      jan1_def mk_event_def get_def get_default_def timestamp_def sample_env_def)

lemma normalize_examples:
  "normalize_orders sample_env [order_A, order_B] = Inr example_orders"
  "normalize_orders sample_env [order_A, order_B, order_C] = Inr example_orders3"
  "normalize_payments sample_env [payment_A, payment_B] = Inr example_payments"
  "normalize_payments sample_env [payment_A] = Inr example_payment"
  "normalize_refunds sample_env [refund_A] = Inr example_refunds"
proof -
  show "normalize_orders sample_env [order_A, order_B] = Inr example_orders"
    unfolding normalize_orders_def example_orders_def
    by (simp add: example_rows DataFrame_def sort_values_def)
      (simp add: order_row_of_def cell_def jan1_def)
  show "normalize_orders sample_env [order_A, order_B, order_C] = Inr example_orders3"
    unfolding normalize_orders_def example_orders3_def
    by (simp add: example_rows order_C_row DataFrame_def sort_values_def)
      (simp add: order_row_of_def cell_def jan1_def)
  show "normalize_payments sample_env [payment_A, payment_B] = Inr example_payments"
    unfolding normalize_payments_def example_payments_def
    by (simp add: example_rows DataFrame_def) (simp add: payment_row_of_def cell_def)
  show "normalize_payments sample_env [payment_A] = Inr example_payment"
    unfolding normalize_payments_def example_payment_def
    by (simp add: example_rows DataFrame_def)
  show "normalize_refunds sample_env [refund_A] = Inr example_refunds"
    unfolding normalize_refunds_def example_refunds_def
    by (simp add: example_rows DataFrame_def)
qed

lemmas aggregator_defs =
  build_fact_order_daily_def df_empty_def column_def dt_date_def set_column_def dated_def
  order_date_of_def
  groupby_def keyed_def group_key_def daily_row_def select_isin_def DataFrame_def
  order_columns_def payment_columns_def refund_columns_def daily_columns_def
  order_row_of_def payment_row_of_def refund_row_of_def jan1_def cell_def ns_per_day_def



lemma aggregate_cells:
  assumes b: "build_fact_order_daily orders_df payments_df refunds_df = Inr (daily, t)"
    and ne: "\<not> df_empty orders_df" and x: "x \<in> set (rows daily)"
  defines "G \<equiv> filter (\<lambda>g. date_of (cell g ''created_at'') = Inr (cell x ''order_date'')
                           \<and> cell g ''vendor'' = cell x ''vendor'') (rows orders_df)"
  defines "ids \<equiv> map (\<lambda>g. cell g ''order_id'') G"
  defines "P \<equiv> filter (\<lambda>q. cell q ''order_id'' \<in> set ids) (rows payments_df)"
  defines "R \<equiv> filter (\<lambda>q. cell q ''order_id'' \<in> set ids) (rows refunds_df)"
  defines "gross \<equiv> sum_list (map (\<lambda>q. number (cell q ''payment_amount'')) P)"
  defines "refunds \<equiv> sum_list (map (\<lambda>q. number (cell q ''refund_amount'')) R)"
  defines "paid \<equiv> length (filter (\<lambda>q. cell q ''payment_status'' = PStr ''success'') P)"
  shows "cell x ''order_date'' \<noteq> PNone \<and> cell x ''vendor'' \<noteq> PNone \<and> G \<noteq> []
            \<and> cell x ''gross_revenue'' = PNum gross
            \<and> cell x ''paid_count'' = PNum (of_nat paid)
            \<and> cell x ''total_refunds'' = PNum refunds
            \<and> cell x ''net_revenue'' = PNum (gross - refunds)
            \<and> cell x ''order_count'' = PNum (of_nat (length G))
            \<and> cell x ''payment_success_rate'' = PNum (py_round (of_nat paid / of_nat (length G)) 4)
            \<and> cell x ''refund_rate''
                = (if gross > 0 then PNum (py_round (refunds / gross) 4) else PNone)"
proof -
  note r = aggregate_row[OF b ne x, folded G_def, folded ids_def, folded P_def R_def,
      folded gross_def refunds_def paid_def]
  from r have k: "cell x ''order_date'' \<noteq> PNone" "cell x ''vendor'' \<noteq> PNone" "G \<noteq> []"
    by blast+
  obtain d v where dv: "cell x ''order_date'' = d" "cell x ''vendor'' = v" by blast
  from r have e: "x = [(''order_date'', d), (''vendor'', v),
              (''gross_revenue'', PNum gross), (''total_refunds'', PNum refunds),
              (''net_revenue'', PNum (gross - refunds)),
              (''order_count'', PNum (of_nat (length G))),
              (''paid_count'', PNum (of_nat paid)),
              (''payment_success_rate'', PNum (py_round (of_nat paid / of_nat (length G)) 4)),
              (''refund_rate'',
                 if gross > 0 then PNum (py_round (refunds / gross) 4) else PNone)]"
    unfolding dv by blast
  have c: "cell x ''gross_revenue'' = PNum gross"
    "cell x ''paid_count'' = PNum (of_nat paid)"
    "cell x ''total_refunds'' = PNum refunds"
    "cell x ''net_revenue'' = PNum (gross - refunds)"
    "cell x ''order_count'' = PNum (of_nat (length G))"
    "cell x ''payment_success_rate'' = PNum (py_round (of_nat paid / of_nat (length G)) 4)"
    "cell x ''refund_rate'' = (if gross > 0 then PNum (py_round (refunds / gross) 4) else PNone)"
    by (subst e, simp add: cell_def)+
  from k c show ?thesis by blast
qed

subsection \<open>Orders without a date\<close>

lemma keyed_dated: "keyed (with_order_date g) \<Longrightarrow> cell g ''created_at'' \<noteq> PNone"
  by (auto simp: group_key_with_order_date order_date_of_def)

lemma valid_without_undated:
  "filter keyed (map with_order_date (filter (\<lambda>g. cell g ''created_at'' \<noteq> PNone) rs))
     = filter keyed (map with_order_date rs)"
  by (induction rs) (auto dest: keyed_dated)

lemma groupby_dated:
  "groupby (dated df) =
     (if ''vendor'' \<in> set (columns df) then
        Inr (map (\<lambda>k. (k, \<lparr>columns = columns (dated df),
                          rows = filter (\<lambda>r. group_key r = k)
                                   (filter keyed (map with_order_date (rows df)))\<rparr>))
              (remdups (map group_key (filter keyed (map with_order_date (rows df))))))
      else Inl KeyError)"
  by (auto simp: groupby_def dated_simps Let_def)

lemma groupby_without_undated:
  "groupby (dated (df\<lparr>rows := filter (\<lambda>g. cell g ''created_at'' \<noteq> PNone) (rows df)\<rparr>))
     = groupby (dated df)"
  by (simp add: groupby_dated dated_simps valid_without_undated)

lemma build_undated:
  assumes "build_fact_order_daily orders_df payments_df refunds_df = Inr (daily, t)"
  shows "\<exists>t'. build_fact_order_daily
            (orders_df\<lparr>rows := filter (\<lambda>g. cell g ''created_at'' \<noteq> PNone) (rows orders_df)\<rparr>)
            payments_df refunds_df = Inr (daily, t')"
proof (cases "df_empty orders_df")
  case True
  then have "df_empty (orders_df\<lparr>rows := filter (\<lambda>g. cell g ''created_at'' \<noteq> PNone) (rows orders_df)\<rparr>)"
    by (auto simp: df_empty_def)
  with True assms show ?thesis by (simp add: build_fact_order_daily_empty)
next
  case False
  let ?o2 = "orders_df\<lparr>rows := filter (\<lambda>g. cell g ''created_at'' \<noteq> PNone) (rows orders_df)\<rparr>"
  from build_nonempty_Inr[OF assms False] obtain groups results where
    col: "''created_at'' \<in> set (columns orders_df)"
    and ok: "\<forall>g \<in> set (rows orders_df). \<exists>d. date_of (cell g ''created_at'') = Inr d"
    and g: "groupby (dated orders_df) = Inr groups"
    and m: "map_rows (daily_row payments_df refunds_df) groups = Inr results"
    and r: "daily = DataFrame daily_columns results"
    by blast
  show ?thesis
  proof (cases "df_empty ?o2")
    case True
    with False have "filter (\<lambda>g. cell g ''created_at'' \<noteq> PNone) (rows orders_df) = []"
      by (simp add: df_empty_def)
    then have "filter keyed (map with_order_date (rows orders_df)) = []"
      using valid_without_undated[of "rows orders_df"] by simp
    with g have "groups = []" by (simp add: groupby_dated split: if_splits)
    with m r have "daily = empty_frame" by (simp add: DataFrame_def)
    with True show ?thesis by (simp add: build_fact_order_daily_empty)
  next
    case ne: False
    from col have col2: "''created_at'' \<in> set (columns ?o2)" by simp
    from ok have ok2: "\<forall>g \<in> set (rows ?o2). \<exists>d. date_of (cell g ''created_at'') = Inr d" by simp
    from build_nonempty_eq[OF ne col2 ok2, of payments_df refunds_df] g m r
    show ?thesis by (simp add: groupby_without_undated)
  qed
qed

lemma aggregate_example_undated:
  "build_fact_order_daily example_orders_undated example_payments_undated example_refunds
   = Inr (\<lparr>columns = daily_columns,
      rows = [[(''order_date'', PDate 19723), (''vendor'', PStr ''vendorX''),
             (''gross_revenue'', PNum 30), (''total_refunds'', PNum 3),
             (''net_revenue'', PNum 27), (''order_count'', PNum 2),
             (''paid_count'', PNum 1),
             (''payment_success_rate'', PNum (1 / 2)),
             (''refund_rate'', PNum (1 / 10))]]\<rparr>,
     (dated example_orders_undated, example_payments_undated, example_refunds))"
  unfolding example_orders_undated_def example_payments_undated_def example_refunds_def
  by (simp add: aggregator_defs py_round_examples)

lemma normalize_examples_undated:
  "normalize_orders sample_env [order_A, order_B, order_U] = Inr example_orders_undated"
  "normalize_payments sample_env [payment_A, payment_B, payment_U] = Inr example_payments_undated"
proof -
  have u: "order_row sample_env order_U = Inr (order_row_of ''U'' 40 PNone ''o5'' ''order_created'')"
    by (simp add: order_row_def order_U_def order_row_of_def
      mk_event_def get_def get_default_def timestamp_def sample_env_def)
  have p: "payment_row sample_env payment_U = Inr (payment_row_of ''P6'' ''U'' 40 ''success'' ''p6'')"
    by (simp add: payment_row_def payment_U_def payment_row_of_def
      mk_event_def get_def timestamp_def sample_env_def
      payment_status_def resolved_status_def py_or_def lower_examples
      payment_amount_raw_def amount_or_zero_def)
  show "normalize_orders sample_env [order_A, order_B, order_U] = Inr example_orders_undated"
    unfolding normalize_orders_def example_orders_undated_def
    by (simp add: example_rows u DataFrame_def sort_values_def)
      (simp add: order_row_of_def cell_def jan1_def)
  show "normalize_payments sample_env [payment_A, payment_B, payment_U] = Inr example_payments_undated"
    unfolding normalize_payments_def example_payments_undated_def
    by (simp add: example_rows p DataFrame_def) (simp add: payment_row_of_def cell_def)
qed

subsection \<open>The quality checker\<close>















section \<open>Status vocabulary of payments\<close>

text \<open>
  Claim C6. When the status resolved from a payment payload is a non-empty string \<open>s\<close>,
  the canonical status is computed from the lower-cased \<open>s\<close>: \<^verbatim>\<open>failed\<close>, \<^verbatim>\<open>fail\<close> and
  \<^verbatim>\<open>error\<close> become \<^verbatim>\<open>failed\<close>; \<^verbatim>\<open>success\<close>, \<^verbatim>\<open>successful\<close>, \<^verbatim>\<open>completed\<close> and \<^verbatim>\<open>paid\<close>
  become \<^verbatim>\<open>success\<close>; every other string stays as its lower-cased self. This is the value
  of the column \<^verbatim>\<open>payment_status\<close> in the row built from the event. In particular
  \<^verbatim>\<open>FAILED\<close>, \<^verbatim>\<open>fail\<close>, \<^verbatim>\<open>Error\<close> give \<^verbatim>\<open>failed\<close> and \<^verbatim>\<open>Success\<close>, \<^verbatim>\<open>PAID\<close>, \<^verbatim>\<open>Completed\<close>
  give \<^verbatim>\<open>success\<close>.
\<close>

theorem payment_status_canonical:
  assumes "resolved_status (payload ev) = PStr s" and "s \<noteq> []"
  shows "payment_status (payload ev) = Inr (PStr
           (if lower s \<in> {''failed'', ''fail'', ''error''} then ''failed''
            else if lower s \<in> {''success'', ''successful'', ''completed'', ''paid''} then ''success''
            else lower s))
     \<and> (payment_row env ev = Inr r \<longrightarrow> cell r ''payment_status'' = PStr
           (if lower s \<in> {''failed'', ''fail'', ''error''} then ''failed''
            else if lower s \<in> {''success'', ''successful'', ''completed'', ''paid''} then ''success''
            else lower s))
     \<and> (s \<in> {''FAILED'', ''fail'', ''Error''} \<longrightarrow> payment_status (payload ev) = Inr (PStr ''failed''))
     \<and> (s \<in> {''Success'', ''PAID'', ''Completed''} \<longrightarrow> payment_status (payload ev) = Inr (PStr ''success''))"
proof -
  let ?c = "if lower s \<in> {''failed'', ''fail'', ''error''} then ''failed''
            else if lower s \<in> {''success'', ''successful'', ''completed'', ''paid''} then ''success''
            else lower s"
  have main: "payment_status (payload ev) = Inr (PStr ?c)"
    using assms by (rule payment_status_of_string)
  have row: "cell r ''payment_status'' = PStr ?c" if "payment_row env ev = Inr r"
    using payment_row_status[OF that] main by simp
  have failed: "payment_status (payload ev) = Inr (PStr ''failed'')"
    if "s \<in> {''FAILED'', ''fail'', ''Error''}"
    using that main by (auto simp: lower_examples)
  have success: "payment_status (payload ev) = Inr (PStr ''success'')"
    if "s \<in> {''Success'', ''PAID'', ''Completed''}"
    using that main by (auto simp: lower_examples)
  from main row failed success show ?thesis by blast
qed

theorem payment_status_canonical_witness:
  "resolved_status (payload (mk_event ''payment_confirmed'' ''e1''
       [(''id'', PStr ''p1''), (''status'', PStr ''PAID''), (''amount'', PNum 10)])) = PStr ''PAID''
   \<and> payment_row sample_env (mk_event ''payment_confirmed'' ''e1''
       [(''id'', PStr ''p1''), (''status'', PStr ''PAID''), (''amount'', PNum 10)])
     = Inr [(''payment_id'', PStr ''p1''), (''order_id'', PNone), (''payment_amount'', PNum 10),
            (''payment_status'', PStr ''success''), (''payment_method'', PNone),
            (''payment_date'', PNone), (''event_id'', PStr ''e1''), (''vendor'', PStr ''vendorX'')]
   \<and> payment_status (payload (mk_event ''payment_confirmed'' ''e1''
       [(''id'', PStr ''p1''), (''status'', PStr ''PAID''), (''amount'', PNum 10)])) = Inr (PStr ''success'')"
proof -
  let ?ev = "mk_event ''payment_confirmed'' ''e1''
       [(''id'', PStr ''p1''), (''status'', PStr ''PAID''), (''amount'', PNum 10)]"
  have h: "resolved_status (payload ?ev) = PStr ''PAID''"
    by (simp add: mk_event_def resolved_status_def py_or_def get_def)
  have r: "payment_row sample_env ?ev
     = Inr [(''payment_id'', PStr ''p1''), (''order_id'', PNone), (''payment_amount'', PNum 10),
            (''payment_status'', PStr ''success''), (''payment_method'', PNone),
            (''payment_date'', PNone), (''event_id'', PStr ''e1''), (''vendor'', PStr ''vendorX'')]"
    by (simp add: payment_row_def payment_status_def resolved_status_def lower_examples
        mk_event_def py_or_def get_def payment_amount_raw_def amount_or_zero_def
        timestamp_def sample_env_def)
  have st: "payment_status (payload ?ev) = Inr (PStr ''success'')"
    using payment_status_canonical [OF h, of sample_env]
    by (simp add: lower_examples)
  from h r st show ?thesis by blast
qed

section \<open>Normalizing a sequence twice\<close>



section \<open>Deduplication of orders\<close>

text \<open>
  Claim C5. The orders table holds exactly one row for every \<^verbatim>\<open>order_id\<close> of the input
  (the rows are rows built from the input, their order ids are distinct, and every order
  id of the input occurs), and the row kept for an order id has the latest
  \<^verbatim>\<open>created_at\<close> among the rows of that id, a missing timestamp counting as earlier than
  every date. In particular, of two events with the same order id, one with a missing and
  one with a parsed \<^verbatim>\<open>created_at\<close>, the table holds the row of the dated one, in
  whichever order the two events arrive. (Rows with equal timestamps keep their input
  order in the sort, which is how the model reads \<^verbatim>\<open>sort_values\<close>.)
\<close>

theorem orders_dedup_latest:
  "(normalize_orders env events = Inr df \<and> map_rows (order_row env) events = Inr rs \<longrightarrow>
      set (rows df) \<subseteq> set rs
      \<and> distinct (map (\<lambda>r. cell r ''order_id'') (rows df))
      \<and> (\<lambda>r. cell r ''order_id'') ` set (rows df) = (\<lambda>r. cell r ''order_id'') ` set rs
      \<and> (\<forall>r \<in> set (rows df). \<forall>r' \<in> set rs. cell r' ''order_id'' = cell r ''order_id'' \<longrightarrow>
            time_key (cell r' ''created_at'') \<le> time_key (cell r ''created_at'')))
   \<and> (order_row env e1 = Inr r1 \<and> order_row env e2 = Inr r2
       \<and> get (payload e1) ''order_id'' = get (payload e2) ''order_id''
       \<and> to_datetime env (get (payload e1) ''created_at'') = None
       \<and> to_datetime env (get (payload e2) ''created_at'') = Some t \<longrightarrow>
      normalize_orders env [e1, e2] = Inr \<lparr>columns = order_columns, rows = [r2]\<rparr>
      \<and> normalize_orders env [e2, e1] = Inr \<lparr>columns = order_columns, rows = [r2]\<rparr>)"
proof (intro conjI impI)
  assume a: "normalize_orders env events = Inr df \<and> map_rows (order_row env) events = Inr rs"
  then have rows: "rows df = drop_duplicates_last ''order_id'' (sort_values ''created_at'' rs)"
    using normalize_orders_rows by blast
  show "set (rows df) \<subseteq> set rs"
    using set_drop_duplicates_last_subset[of "''order_id''" "sort_values ''created_at'' rs"]
    by (simp add: rows sort_values_def)
  show "distinct (map (\<lambda>r. cell r ''order_id'') (rows df))"
    by (simp only: rows distinct_drop_duplicates_last)
  show "(\<lambda>r. cell r ''order_id'') ` set (rows df) = (\<lambda>r. cell r ''order_id'') ` set rs"
    by (simp add: rows keys_drop_duplicates_last sort_values_def)
  show "\<forall>r \<in> set (rows df). \<forall>r' \<in> set rs. cell r' ''order_id'' = cell r ''order_id'' \<longrightarrow>
            time_key (cell r' ''created_at'') \<le> time_key (cell r ''created_at'')"
  proof (intro ballI impI)
    fix r r' assume r: "r \<in> set (rows df)" and r': "r' \<in> set rs"
      and k: "cell r' ''order_id'' = cell r ''order_id''"
    have s: "sorted (map (\<lambda>r. time_key (cell r ''created_at'')) (sort_values ''created_at'' rs))"
      by (simp add: sort_values_def)
    from r' have "r' \<in> set (sort_values ''created_at'' rs)" by (simp add: sort_values_def)
    from drop_duplicates_last_latest[OF s r[unfolded rows] this k]
    show "time_key (cell r' ''created_at'') \<le> time_key (cell r ''created_at'')" .
  qed
next
  assume a: "order_row env e1 = Inr r1 \<and> order_row env e2 = Inr r2
       \<and> get (payload e1) ''order_id'' = get (payload e2) ''order_id''
       \<and> to_datetime env (get (payload e1) ''created_at'') = None
       \<and> to_datetime env (get (payload e2) ''created_at'') = Some t"
  then have c: "cell r1 ''order_id'' = cell r2 ''order_id''"
    "cell r1 ''created_at'' = PNone" "cell r2 ''created_at'' = PTime t"
    using order_row_cells[of env e1 r1] order_row_cells[of env e2 r2]
    by (simp_all add: timestamp_def)
  from a c show "normalize_orders env [e1, e2] = Inr \<lparr>columns = order_columns, rows = [r2]\<rparr>"
    by (simp add: normalize_orders_def DataFrame_def sort_values_def)
  from a c show "normalize_orders env [e2, e1] = Inr \<lparr>columns = order_columns, rows = [r2]\<rparr>"
    by (simp add: normalize_orders_def DataFrame_def sort_values_def)
qed


theorem orders_dedup_latest_witness:
  "normalize_orders sample_env [order_A_undated, order_A]
     = Inr \<lparr>columns = order_columns, rows = [order_row_of ''A'' 10 jan1 ''o1'' ''historical_order'']\<rparr>
   \<and> normalize_orders sample_env [order_A, order_A_undated]
     = Inr \<lparr>columns = order_columns, rows = [order_row_of ''A'' 10 jan1 ''o1'' ''historical_order'']\<rparr>
   \<and> map_rows (order_row sample_env) [order_A_undated, order_A]
     = Inr [order_row_of ''A'' 5 PNone ''o3'' ''order_updated'',
            order_row_of ''A'' 10 jan1 ''o1'' ''historical_order'']
   \<and> time_key (cell (order_row_of ''A'' 5 PNone ''o3'' ''order_updated'') ''created_at'')
      \<le> time_key (cell (order_row_of ''A'' 10 jan1 ''o1'' ''historical_order'') ''created_at'')"
proof -
  let ?u = "order_row_of ''A'' 5 PNone ''o3'' ''order_updated''"
  let ?d = "order_row_of ''A'' 10 jan1 ''o1'' ''historical_order''"
  have h2: "order_row sample_env order_A_undated = Inr ?u
       \<and> order_row sample_env order_A = Inr ?d
       \<and> get (payload order_A_undated) ''order_id'' = get (payload order_A) ''order_id''
       \<and> to_datetime sample_env (get (payload order_A_undated) ''created_at'') = None
       \<and> to_datetime sample_env (get (payload order_A) ''created_at'') = Some (19723 * ns_per_day)"
    by (simp add: example_rows)
      (simp add: order_A_undated_def order_A_def mk_event_def get_def sample_env_def)
  have m: "map_rows (order_row sample_env) [order_A_undated, order_A] = Inr [?u, ?d]"
    by (simp add: example_rows)
  note T = orders_dedup_latest [of sample_env "[order_A_undated, order_A]"
      "\<lparr>columns = order_columns, rows = [?d]\<rparr>" "[?u, ?d]"
      order_A_undated ?u order_A ?d "19723 * ns_per_day"]
  from T h2 have n: "normalize_orders sample_env [order_A_undated, order_A]
     = Inr \<lparr>columns = order_columns, rows = [?d]\<rparr>"
    "normalize_orders sample_env [order_A, order_A_undated]
     = Inr \<lparr>columns = order_columns, rows = [?d]\<rparr>"
    by blast+
  from T n(1) m have "time_key (cell ?u ''created_at'') \<le> time_key (cell ?d ''created_at'')"
    by simp
  with n m show ?thesis by blast
qed

section \<open>Coercion of amounts\<close>

text \<open>
  Claim C2, as stated, does not hold: the normalizers convert the amount with
  \<^verbatim>\<open>float\<close> and never clamp it, so a negative amount stays negative, and \<^verbatim>\<open>float\<close> raises
  on a string that is not a number, which ends the normalization of the whole sequence.
  The payment of \<open>-5\<close> is stored as \<open>-5\<close>, and the sequence with the amount \<^verbatim>\<open>abc\<close> raises
  \<^verbatim>\<open>ValueError\<close>.
\<close>

theorem amount_counterexample:
  "normalize_payments sample_env [payment_negative]
     = Inr \<lparr>columns = payment_columns, rows = [payment_row_of ''P4'' ''A'' (- 5) ''success'' ''p4'']\<rparr>
   \<and> cell (payment_row_of ''P4'' ''A'' (- 5) ''success'' ''p4'') ''payment_amount'' = PNum (- 5)
   \<and> normalize_payments sample_env [payment_A, payment_malformed] = Inl ValueError"
  by (simp add: normalize_payments_def payment_row_def payment_negative_def payment_malformed_def
      payment_A_def
      payment_row_of_def DataFrame_def cell_def
      mk_event_def get_def timestamp_def sample_env_def
      payment_status_def resolved_status_def py_or_def lower_examples
      payment_amount_raw_def amount_or_zero_def)

text \<open>
  Claim C2, amended. In the payment and refund normalizers a missing or falsy amount
  (\<^verbatim>\<open>None\<close>, zero, the empty string) becomes 0, a number is stored as it is (its sign
  included) and a numeric string as its value; a non-empty string that is not a number
  makes the row raise, and with it the normalization of every sequence that contains the
  event. In the order normalizer an absent \<^verbatim>\<open>totalAmount\<close> becomes 0, a number is stored
  as it is and a numeric string as its value; a non-empty string that is not a number
  makes the row and the normalization raise.
\<close>

theorem amount_coercion:
  "(payment_row env ev = Inr r \<longrightarrow>
      (\<not> truthy (payment_amount_raw (payload ev)) \<longrightarrow> cell r ''payment_amount'' = PNum 0)
    \<and> (payment_amount_raw (payload ev) = PNum a \<longrightarrow> cell r ''payment_amount'' = PNum a)
    \<and> (payment_amount_raw (payload ev) = PStr s \<and> s \<noteq> [] \<and> float_of_str env s = Some a
         \<longrightarrow> cell r ''payment_amount'' = PNum a))
   \<and> (payment_amount_raw (payload ev) = PStr s \<and> s \<noteq> [] \<and> float_of_str env s = None \<and> ev \<in> set events
         \<longrightarrow> (\<exists>e. payment_row env ev = Inl e) \<and> (\<exists>e. normalize_payments env events = Inl e))
   \<and> (refund_row env ev = Inr r \<longrightarrow>
      (\<not> truthy (refund_amount_raw (payload ev)) \<longrightarrow> cell r ''refund_amount'' = PNum 0)
    \<and> (refund_amount_raw (payload ev) = PNum a \<longrightarrow> cell r ''refund_amount'' = PNum a)
    \<and> (refund_amount_raw (payload ev) = PStr s \<and> s \<noteq> [] \<and> float_of_str env s = Some a
         \<longrightarrow> cell r ''refund_amount'' = PNum a))
   \<and> (refund_amount_raw (payload ev) = PStr s \<and> s \<noteq> [] \<and> float_of_str env s = None \<and> ev \<in> set events
         \<longrightarrow> (\<exists>e. refund_row env ev = Inl e) \<and> (\<exists>e. normalize_refunds env events = Inl e))
   \<and> (order_row env ev = Inr r \<longrightarrow>
      (payload ev ''totalAmount'' = None \<longrightarrow> cell r ''order_amount'' = PNum 0)
    \<and> (payload ev ''totalAmount'' = Some (PNum a) \<longrightarrow> cell r ''order_amount'' = PNum a)
    \<and> (payload ev ''totalAmount'' = Some (PStr s) \<and> float_of_str env s = Some a
         \<longrightarrow> cell r ''order_amount'' = PNum a))
   \<and> (payload ev ''totalAmount'' = Some (PStr s) \<and> s \<noteq> [] \<and> float_of_str env s = None \<and> ev \<in> set events
         \<longrightarrow> (\<exists>e. order_row env ev = Inl e) \<and> (\<exists>e. normalize_orders env events = Inl e))"
proof (intro conjI impI)
  assume "payment_row env ev = Inr r" "\<not> truthy (payment_amount_raw (payload ev))"
  then show "cell r ''payment_amount'' = PNum 0"
    using payment_row_amount amount_or_zero_cases(1) by blast
next
  assume "payment_row env ev = Inr r" "payment_amount_raw (payload ev) = PNum a"
  then show "cell r ''payment_amount'' = PNum a"
    using payment_row_amount[of env ev r a] amount_or_zero_cases(2)[of env a] by simp
next
  assume "payment_row env ev = Inr r"
    "payment_amount_raw (payload ev) = PStr s \<and> s \<noteq> [] \<and> float_of_str env s = Some a"
  then show "cell r ''payment_amount'' = PNum a"
    using payment_row_amount[of env ev r a] amount_or_zero_cases(3)[of s env a] by simp
next
  assume a: "payment_amount_raw (payload ev) = PStr s \<and> s \<noteq> [] \<and> float_of_str env s = None \<and> ev \<in> set events"
  then show f: "\<exists>e. payment_row env ev = Inl e"
    using payment_row_amount_fails[of env ev ValueError] amount_or_zero_cases(4)[of s env] by simp
  with a show "\<exists>e. normalize_payments env events = Inl e"
    using normalize_fails(2) by blast
next
  assume "refund_row env ev = Inr r" "\<not> truthy (refund_amount_raw (payload ev))"
  then show "cell r ''refund_amount'' = PNum 0"
    using refund_row_amount amount_or_zero_cases(1) by blast
next
  assume "refund_row env ev = Inr r" "refund_amount_raw (payload ev) = PNum a"
  then show "cell r ''refund_amount'' = PNum a"
    using refund_row_amount[of env ev r a] amount_or_zero_cases(2)[of env a] by simp
next
  assume "refund_row env ev = Inr r"
    "refund_amount_raw (payload ev) = PStr s \<and> s \<noteq> [] \<and> float_of_str env s = Some a"
  then show "cell r ''refund_amount'' = PNum a"
    using refund_row_amount[of env ev r a] amount_or_zero_cases(3)[of s env a] by simp
next
  assume a: "refund_amount_raw (payload ev) = PStr s \<and> s \<noteq> [] \<and> float_of_str env s = None \<and> ev \<in> set events"
  then show f: "\<exists>e. refund_row env ev = Inl e"
    using refund_row_amount_fails[of env ev ValueError] amount_or_zero_cases(4)[of s env] by simp
  with a show "\<exists>e. normalize_refunds env events = Inl e"
    using normalize_fails(3) by blast
next
  assume "order_row env ev = Inr r" "payload ev ''totalAmount'' = None"
  then show "cell r ''order_amount'' = PNum 0"
    using order_row_amount[of env ev r 0] by (simp add: get_default_def)
next
  assume "order_row env ev = Inr r" "payload ev ''totalAmount'' = Some (PNum a)"
  then show "cell r ''order_amount'' = PNum a"
    using order_row_amount[of env ev r a] by (simp add: get_default_def)
next
  assume "order_row env ev = Inr r"
    "payload ev ''totalAmount'' = Some (PStr s) \<and> float_of_str env s = Some a"
  then show "cell r ''order_amount'' = PNum a"
    using order_row_amount[of env ev r a] by (simp add: get_default_def)
next
  assume a: "payload ev ''totalAmount'' = Some (PStr s) \<and> s \<noteq> [] \<and> float_of_str env s = None \<and> ev \<in> set events"
  then show f: "\<exists>e. order_row env ev = Inl e"
    using order_row_amount_fails[of env ev ValueError] by (simp add: get_default_def)
  with a show "\<exists>e. normalize_orders env events = Inl e"
    using normalize_fails(1) by blast
qed

theorem amount_coercion_witness:
  "payment_row sample_env payment_negative = Inr (payment_row_of ''P4'' ''A'' (- 5) ''success'' ''p4'')
   \<and> payment_amount_raw (payload payment_negative) = PNum (- 5)
   \<and> cell (payment_row_of ''P4'' ''A'' (- 5) ''success'' ''p4'') ''payment_amount'' = PNum (- 5)
   \<and> payment_amount_raw (payload payment_malformed) = PStr ''abc''
   \<and> float_of_str sample_env ''abc'' = None
   \<and> isl (normalize_payments sample_env [payment_A, payment_malformed])
   \<and> refund_amount_raw (payload refund_A) = PNum 3
   \<and> cell (refund_row_of ''R1'' ''A'' ''P1'' 3 ''r1'') ''refund_amount'' = PNum 3
   \<and> payload order_A ''totalAmount'' = Some (PNum 10)
   \<and> cell (order_row_of ''A'' 10 jan1 ''o1'' ''historical_order'') ''order_amount'' = PNum 10"
proof -
  have p: "payment_row sample_env payment_negative = Inr (payment_row_of ''P4'' ''A'' (- 5) ''success'' ''p4'')"
    by (simp add: payment_row_def payment_negative_def payment_row_of_def
      mk_event_def get_def timestamp_def sample_env_def
      payment_status_def resolved_status_def py_or_def lower_examples
      payment_amount_raw_def amount_or_zero_def)
  have pa: "payment_amount_raw (payload payment_negative) = PNum (- 5)"
    by (simp add: payment_negative_def mk_event_def payment_amount_raw_def py_or_def get_def)
  have m: "payment_amount_raw (payload payment_malformed) = PStr ''abc'' \<and> ''abc'' \<noteq> []
      \<and> float_of_str sample_env ''abc'' = None \<and> payment_malformed \<in> set [payment_A, payment_malformed]"
    by (simp add: payment_malformed_def mk_event_def payment_amount_raw_def py_or_def get_def
        sample_env_def)
  have ra: "refund_amount_raw (payload refund_A) = PNum 3"
    by (simp add: refund_A_def mk_event_def refund_amount_raw_def py_or_def get_def)
  have oa: "payload order_A ''totalAmount'' = Some (PNum 10)"
    by (simp add: order_A_def mk_event_def)
  from amount_coercion [of sample_env payment_negative
      "payment_row_of ''P4'' ''A'' (- 5) ''success'' ''p4''" "- 5"] p pa
  have c1: "cell (payment_row_of ''P4'' ''A'' (- 5) ''success'' ''p4'') ''payment_amount'' = PNum (- 5)"
    by blast
  from amount_coercion [of sample_env payment_malformed _ _ "''abc''" "[payment_A, payment_malformed]"] m
  have c2: "isl (normalize_payments sample_env [payment_A, payment_malformed])"
    by (metis sum.disc(1))
  from amount_coercion [of sample_env refund_A "refund_row_of ''R1'' ''A'' ''P1'' 3 ''r1''" 3]
    example_rows(7) ra
  have c3: "cell (refund_row_of ''R1'' ''A'' ''P1'' 3 ''r1'') ''refund_amount'' = PNum 3"
    by blast
  from amount_coercion [of sample_env order_A "order_row_of ''A'' 10 jan1 ''o1'' ''historical_order''" 10]
    example_rows(1) oa
  have c4: "cell (order_row_of ''A'' 10 jan1 ''o1'' ''historical_order'') ''order_amount'' = PNum 10"
    by blast
  from p pa c1 m c2 ra c3 oa c4 show ?thesis by blast
qed

section \<open>Empty input\<close>

text \<open>
  Claim C3, as stated, does not hold: on the empty event sequence each normalizer returns
  \<^verbatim>\<open>pd.DataFrame()\<close>, a table without columns, not a table with the columns of its entity
  type.
\<close>

theorem empty_input_counterexample:
  "normalize_orders sample_env [] = Inr empty_frame \<and> columns empty_frame \<noteq> order_columns
   \<and> normalize_payments sample_env [] = Inr empty_frame \<and> columns empty_frame \<noteq> payment_columns
   \<and> normalize_refunds sample_env [] = Inr empty_frame \<and> columns empty_frame \<noteq> refund_columns"
  by (simp add: normalize_orders_def normalize_payments_def normalize_refunds_def empty_frame_def
      order_columns_def payment_columns_def refund_columns_def)

text \<open>
  Claim C3, amended. On the empty event sequence each normalizer returns, without
  raising, the empty table that has no rows and no columns; and the aggregator returns
  that same empty table for an orders table without rows, whatever the payments and
  refunds tables are, leaving the three tables as they were.
\<close>

theorem empty_input:
  "normalize_orders env [] = Inr empty_frame
   \<and> normalize_payments env [] = Inr empty_frame
   \<and> normalize_refunds env [] = Inr empty_frame
   \<and> columns empty_frame = [] \<and> rows empty_frame = []
   \<and> (rows orders_df = [] \<longrightarrow>
        build_fact_order_daily orders_df payments_df refunds_df
          = Inr (empty_frame, (orders_df, payments_df, refunds_df)))"
  by (simp add: normalize_orders_def normalize_payments_def normalize_refunds_def empty_frame_def
      build_fact_order_daily_empty[unfolded empty_frame_def] df_empty_def)

theorem empty_input_witness:
  "rows empty_frame = []
   \<and> build_fact_order_daily empty_frame
        \<lparr>columns = payment_columns, rows = [payment_row_of ''P1'' ''A'' 10 ''success'' ''p1'']\<rparr>
        \<lparr>columns = refund_columns, rows = [refund_row_of ''R1'' ''A'' ''P1'' 3 ''r1'']\<rparr>
      = Inr (empty_frame, (empty_frame,
          \<lparr>columns = payment_columns, rows = [payment_row_of ''P1'' ''A'' 10 ''success'' ''p1'']\<rparr>,
          \<lparr>columns = refund_columns, rows = [refund_row_of ''R1'' ''A'' ''P1'' 3 ''r1'']\<rparr>))
   \<and> normalize_orders sample_env [] = Inr empty_frame"
proof -
  have h: "rows empty_frame = []" by (simp add: empty_frame_def)
  from empty_input [of sample_env empty_frame
        "\<lparr>columns = payment_columns, rows = [payment_row_of ''P1'' ''A'' 10 ''success'' ''p1'']\<rparr>"
        "\<lparr>columns = refund_columns, rows = [refund_row_of ''R1'' ''A'' ''P1'' 3 ''r1'']\<rparr>"] h
  show ?thesis by blast
qed

section \<open>Daily aggregates\<close>




section \<open>Orders without a date\<close>

text \<open>
  Claim C9. The aggregate table does not depend on the orders whose \<^verbatim>\<open>created_at\<close> is
  missing: whenever the aggregator returns a table, it returns the same table for the
  orders table without those rows, with the same payments and refunds. So such an order is
  counted in no group, and a payment or refund that matches only such orders adds nothing
  to a sum or a count. Every order that has the date of a row of the aggregate table has a
  \<^verbatim>\<open>created_at\<close>.
\<close>

theorem undated_orders_excluded:
  assumes "build_fact_order_daily orders_df payments_df refunds_df = Inr (daily, t)"
  shows "(\<exists>t'. build_fact_order_daily
            (orders_df\<lparr>rows := filter (\<lambda>g. cell g ''created_at'' \<noteq> PNone) (rows orders_df)\<rparr>)
            payments_df refunds_df = Inr (daily, t'))
     \<and> (\<not> df_empty orders_df \<longrightarrow>
          (\<forall>x \<in> set (rows daily). \<forall>g \<in> set (rows orders_df).
             date_of (cell g ''created_at'') = Inr (cell x ''order_date'') \<longrightarrow>
             cell g ''created_at'' \<noteq> PNone))"
proof (intro conjI impI ballI)
  show "\<exists>t'. build_fact_order_daily
            (orders_df\<lparr>rows := filter (\<lambda>g. cell g ''created_at'' \<noteq> PNone) (rows orders_df)\<rparr>)
            payments_df refunds_df = Inr (daily, t')"
    using assms by (rule build_undated)
next
  fix x g
  assume ne: "\<not> df_empty orders_df" and x: "x \<in> set (rows daily)"
    and d: "date_of (cell g ''created_at'') = Inr (cell x ''order_date'')"
  from aggregate_cells[OF assms ne x] have "cell x ''order_date'' \<noteq> PNone" by blast
  with d show "cell g ''created_at'' \<noteq> PNone" by auto
qed

theorem undated_orders_excluded_witness:
  "run_transformation sample_env [order_A, order_B, order_U] [payment_A, payment_B, payment_U] [refund_A]
   = Inr (\<lparr>columns = daily_columns,
      rows = [[(''order_date'', PDate 19723), (''vendor'', PStr ''vendorX''),
             (''gross_revenue'', PNum 30), (''total_refunds'', PNum 3),
             (''net_revenue'', PNum 27), (''order_count'', PNum 2),
             (''paid_count'', PNum 1),
             (''payment_success_rate'', PNum (1 / 2)),
             (''refund_rate'', PNum (1 / 10))]]\<rparr>,
     (dated example_orders_undated, example_payments_undated, example_refunds))
   \<and> (\<exists>t'. build_fact_order_daily
         (example_orders_undated\<lparr>rows :=
            filter (\<lambda>g. cell g ''created_at'' \<noteq> PNone) (rows example_orders_undated)\<rparr>)
         example_payments_undated example_refunds
       = Inr (\<lparr>columns = daily_columns,
      rows = [[(''order_date'', PDate 19723), (''vendor'', PStr ''vendorX''),
             (''gross_revenue'', PNum 30), (''total_refunds'', PNum 3),
             (''net_revenue'', PNum 27), (''order_count'', PNum 2),
             (''paid_count'', PNum 1),
             (''payment_success_rate'', PNum (1 / 2)),
             (''refund_rate'', PNum (1 / 10))]]\<rparr>, t'))"
proof -
  have r: "run_transformation sample_env [order_A, order_B, order_U]
      [payment_A, payment_B, payment_U] [refund_A]
    = build_fact_order_daily example_orders_undated example_payments_undated example_refunds"
    by (simp add: run_transformation_def normalize_examples normalize_examples_undated)
  from undated_orders_excluded [OF aggregate_example_undated, THEN conjunct1] r
    aggregate_example_undated
  show ?thesis by simp
qed

section \<open>Tables after a call\<close>




section \<open>Ratios with a zero denominator\<close>




section \<open>Two definitions of gross revenue\<close>




end
